theory Spec2Isabelle
  imports Main "HOL-Library.Word" "HOL-Library.Finite_Map" "HOL-Library.Multiset"
    "HOL-Library.Sublist"
begin

unbundle bit_operations_syntax

section \<open>Basic data\<close>

type_synonym byte = "8 word"
type_synonym bytes = "byte list"
type_synonym uint32 = "32 word"
type_synonym uint64 = "64 word"

section \<open>consensus/signature: the commit payload\<close>

text \<open>
  \<^verbatim>\<open>binary.LittleEndian.PutUint64(b, v)\<close> of the Go standard library stores
  \<^verbatim>\<open>byte(v >> (8*i))\<close> at index \<open>i\<close>, for \<open>i = 0..7\<close>. The buffer is
  \<^verbatim>\<open>make([]byte, 8)\<close>, so the result is exactly these eight bytes.
\<close>

definition PutUint64 :: "uint64 \<Rightarrow> bytes" where
  "PutUint64 v =
     [ucast v, ucast (drop_bit 8 v), ucast (drop_bit 16 v), ucast (drop_bit 24 v),
      ucast (drop_bit 32 v), ucast (drop_bit 40 v), ucast (drop_bit 48 v),
      ucast (drop_bit 56 v)]"

text \<open>Reading a byte string as a little-endian number (the least significant byte first).\<close>

fun le_value :: "bytes \<Rightarrow> nat" where
  "le_value [] = 0"
| "le_value (b # bs) = unat b + 256 * le_value bs"

text \<open>
  \<^verbatim>\<open>signatureChainReader\<close> is an interface whose only method gives the chain
  configuration; of the configuration the function uses \<^verbatim>\<open>IsStaking(epoch)\<close> only,
  which says whether the epoch is at or after the staking fork. The epoch is a
  \<^verbatim>\<open>*big.Int\<close>, a pointer that may be nil (\<open>None\<close>).
\<close>

record ChainConfig =
  IsStaking :: "int option \<Rightarrow> bool"

record signatureChainReader =
  Config :: ChainConfig

definition ConstructCommitPayload ::
  "signatureChainReader \<Rightarrow> int option \<Rightarrow> bytes \<Rightarrow> uint64 \<Rightarrow> uint64 \<Rightarrow> bytes" where
  "ConstructCommitPayload chain epoch blockHash blockNum viewID =
     (let blockNumBytes = PutUint64 blockNum;
          commitPayload = blockNumBytes @ blockHash
      in if \<not> IsStaking (Config chain) epoch then commitPayload
         else (let viewIDBytes = PutUint64 viewID
               in commitPayload @ viewIDBytes))"

section \<open>Shared Go library behaviour\<close>

text \<open>
  \<^verbatim>\<open>strings.Contains(s, substr)\<close>: whether \<open>substr\<close> occurs in \<open>s\<close> at some
  position.
\<close>

fun strings_Contains :: "string \<Rightarrow> string \<Rightarrow> bool" where
  "strings_Contains [] substr = (substr = [])"
| "strings_Contains (c # cs) substr = (prefix substr (c # cs) \<or> strings_Contains cs substr)"

text \<open>
  \<^verbatim>\<open>(*big.Int).Uint64()\<close> gives the low 64 bits of the magnitude of the number.
\<close>

definition Uint64 :: "int \<Rightarrow> uint64" where
  "Uint64 x = word_of_int \<bar>x\<bar>"

text \<open>
  \<^verbatim>\<open>sort.SliceStable(xs, less)\<close> is a stable sort. For a comparator that is a strict
  weak order, the result of a stable sort does not depend on the algorithm; it is written
  here as a stable insertion sort: an element is put before the first element of the sorted
  rest that is not less than it.
\<close>

fun insert_stable :: "('a \<Rightarrow> 'a \<Rightarrow> bool) \<Rightarrow> 'a \<Rightarrow> 'a list \<Rightarrow> 'a list" where
  "insert_stable lt x [] = [x]"
| "insert_stable lt x (y # ys) =
     (if lt y x then y # insert_stable lt x ys else x # y # ys)"

definition SliceStable :: "('a \<Rightarrow> 'a \<Rightarrow> bool) \<Rightarrow> 'a list \<Rightarrow> 'a list" where
  "SliceStable lt xs = foldr (insert_stable lt) xs []"

text \<open>The logger: each entry is a level and the message of the call.\<close>

datatype log_level = Debug | Info | Warn | Error

type_synonym log_entry = "log_level \<times> string"

type_synonym Hash = bytes

section \<open>node: the pending cross-shard receipt pool\<close>

text \<open>
  Of the types of package \<^verbatim>\<open>core/types\<close> the fields that the node reads:
  a receipt with its destination shard, the Merkle proof with the source shard, source block
  number and source block hash, and the header of the source block.
\<close>

record CXReceipt =
  ToShardID :: uint32

record CXMerkleProof =
  mp_BlockNum :: int
  mp_BlockHash :: Hash
  mp_ShardID :: uint32

record Header =
  Number :: int
  hdr_ShardID :: uint32
  Epoch :: int
  ParentHash :: Hash
  hdr_Hash :: Hash

record CXReceiptsProof =
  Receipts :: "CXReceipt list"
  MerkleProof :: CXMerkleProof
  cxp_Header :: Header

text \<open>
  What the node calls outside of these files: the shard of the consensus object and of the
  blockchain, the chain configuration, the block validator (which returns an error message
  or nothing), the spent check, \<^verbatim>\<open>ContainsEmptyField\<close>, the epoch of the worker's
  current header, the constant \<^verbatim>\<open>rawdb.MsgNoShardStateFromDB\<close> and the key function
  \<^verbatim>\<open>utils.GetPendingCXKey\<close>.
\<close>

record NodeEnv =
  Consensus_ShardID :: uint32
  Blockchain_ShardID :: uint32
  AcceptsCrossTx :: "int \<Rightarrow> bool"
  HasCrossTxFields :: "int \<Rightarrow> bool"
  ValidateCXReceiptsProof :: "CXReceiptsProof \<Rightarrow> string option"
  IsSpent :: "CXReceiptsProof \<Rightarrow> bool"
  ContainsEmptyField :: "CXReceiptsProof \<Rightarrow> bool"
  Worker_CurrentEpoch :: int
  MsgNoShardStateFromDB :: string
  GetPendingCXKey :: "uint32 \<Rightarrow> uint64 \<Rightarrow> string"

record Node =
  pendingCXReceipts :: "(string, CXReceiptsProof) fmap"
  logged :: "log_entry list"

definition log_msg :: "log_level \<Rightarrow> string \<Rightarrow> Node \<Rightarrow> Node" where
  "log_msg lvl txt node = node\<lparr>logged := logged node @ [(lvl, txt)]\<rparr>"

definition maxCrossTxnSize :: nat where
  "maxCrossTxnSize = 4096"

text \<open>\<^verbatim>\<open>len(node.pendingCXReceipts)\<close>: the number of keys of the map.\<close>

definition pool_len :: "(string, CXReceiptsProof) fmap \<Rightarrow> nat" where
  "pool_len m = fcard (fmdom m)"

definition AddPendingReceipts :: "NodeEnv \<Rightarrow> Node \<Rightarrow> CXReceiptsProof \<Rightarrow> Node" where
  "AddPendingReceipts env node receipts =
     (if ContainsEmptyField env receipts
      then log_msg Info ''CXReceiptsProof contains empty field'' node
      else
        let blockNum = Uint64 (Number (cxp_Header receipts));
            shardID = hdr_ShardID (cxp_Header receipts)
        in
        if (case ValidateCXReceiptsProof env receipts of
              None \<Rightarrow> False
            | Some err \<Rightarrow> \<not> strings_Contains err (MsgNoShardStateFromDB env))
        then log_msg Error ''[AddPendingReceipts] Invalid CXReceiptsProof'' node
        else if Consensus_ShardID env = shardID
        then log_msg Info ''ShardID of incoming receipt was same as mine'' node
        else if blockNum = 0 \<or> \<not> AcceptsCrossTx env (Epoch (cxp_Header receipts))
        then log_msg Info ''Incoming receipt had meaningless epoch'' node
        else
          let key = GetPendingCXKey env shardID blockNum
          in
          if pool_len (pendingCXReceipts node) \<ge> maxCrossTxnSize
          then log_msg Info ''Current pending cx-receipts reached size limit'' node
          else if fmlookup (pendingCXReceipts node) key \<noteq> None
          then log_msg Info ''Already Got Same Receipt message'' node
          else log_msg Info ''Got ONE more receipt message''
                 (node\<lparr>pendingCXReceipts := fmupd key receipts (pendingCXReceipts node)\<rparr>))"

section \<open>node: proposing cross-shard receipts\<close>

definition IncomingReceiptsLimit :: nat where
  "IncomingReceiptsLimit = 6000"

text \<open>
  \<^verbatim>\<open>for _, v := range m\<close> over a Go map visits every key once, in an order that the
  language leaves open and the runtime randomises. The order is an argument of the model: a
  list of the keys of the map; the values are visited in that order.
\<close>

definition range_values :: "('k, 'v) fmap \<Rightarrow> 'k list \<Rightarrow> 'v list" where
  "range_values m order = List.map_filter (fmlookup m) order"

definition range_order_ok :: "('k, 'v) fmap \<Rightarrow> 'k list \<Rightarrow> bool" where
  "range_order_ok m order = (distinct order \<and> fset_of_list order = fmdom m)"

text \<open>The comparator given to \<^verbatim>\<open>sort.SliceStable\<close>.\<close>

definition cx_less :: "CXReceiptsProof \<Rightarrow> CXReceiptsProof \<Rightarrow> bool" where
  "cx_less a b =
     (let shardCMP = mp_ShardID (MerkleProof a) < mp_ShardID (MerkleProof b);
          shardEQ = (mp_ShardID (MerkleProof a) = mp_ShardID (MerkleProof b));
          blockCMP = (mp_BlockNum (MerkleProof a) < mp_BlockNum (MerkleProof b))
      in shardCMP \<or> (shardEQ \<and> blockCMP))"

text \<open>The variables that the loop labelled \<^verbatim>\<open>Loop\<close> updates.\<close>

record propose_state =
  numProposed :: nat
  validReceiptsList :: "CXReceiptsProof list"
  pendingReceiptsList :: "CXReceiptsProof list"
  seen_hashes :: "Hash list"
  propose_log :: "log_entry list"

definition propose_init :: propose_state where
  "propose_init = \<lparr>numProposed = 0, validReceiptsList = [], pendingReceiptsList = [],
     seen_hashes = [], propose_log = []\<rparr>"

text \<open>One iteration of the loop, for the proof \<open>cxp\<close>.\<close>

definition propose_step :: "NodeEnv \<Rightarrow> CXReceiptsProof \<Rightarrow> propose_state \<Rightarrow> propose_state" where
  "propose_step env cxp st =
     (if numProposed st > IncomingReceiptsLimit
      then st\<lparr>pendingReceiptsList := pendingReceiptsList st @ [cxp]\<rparr>
      else if IsSpent env cxp
      then st\<lparr>propose_log := propose_log st @ [(Debug, ''[proposeReceiptsProof] CXReceipt is spent'')]\<rparr>
      else
        let hash = mp_BlockHash (MerkleProof cxp)
        in
        if hash \<in> set (seen_hashes st) then st
        else
          let st1 = st\<lparr>seen_hashes := hash # seen_hashes st\<rparr>
          in
          if \<exists>item \<in> set (Receipts cxp). ToShardID item \<noteq> Blockchain_ShardID env
          then st1
          else
            (case ValidateCXReceiptsProof env cxp of
               Some err \<Rightarrow>
                 if strings_Contains err (MsgNoShardStateFromDB env)
                 then st1\<lparr>pendingReceiptsList := pendingReceiptsList st1 @ [cxp]\<rparr>
                 else st1\<lparr>propose_log := propose_log st1 @
                            [(Error, ''[proposeReceiptsProof] Invalid CXReceiptsProof'')]\<rparr>
             | None \<Rightarrow>
                 st1\<lparr>propose_log := propose_log st1 @
                        [(Debug, ''[proposeReceiptsProof] CXReceipts Added'')],
                     validReceiptsList := validReceiptsList st1 @ [cxp],
                     numProposed := numProposed st1 + length (Receipts cxp)\<rparr>))"

definition requeue :: "NodeEnv \<Rightarrow> CXReceiptsProof list \<Rightarrow> (string, CXReceiptsProof) fmap" where
  "requeue env vs =
     fold (\<lambda>v m. fmupd (GetPendingCXKey env (hdr_ShardID (cxp_Header v))
                          (Uint64 (Number (cxp_Header v)))) v m) vs fmempty"

text \<open>
  \<^verbatim>\<open>proposeReceiptsProof\<close>. The first range over the pool fills the local slice
  \<^verbatim>\<open>pendingCXReceipts\<close>, which is then sorted; the loop that follows ranges over
  \<^verbatim>\<open>node.pendingCXReceipts\<close>, the map, again. \<open>order1\<close> and \<open>order2\<close> are the
  orders of the two ranges.
\<close>

definition proposeReceiptsProof ::
  "NodeEnv \<Rightarrow> Node \<Rightarrow> string list \<Rightarrow> string list \<Rightarrow> CXReceiptsProof list \<times> Node" where
  "proposeReceiptsProof env node order1 order2 =
     (if \<not> HasCrossTxFields env (Worker_CurrentEpoch env) then ([], node)
      else
        let pendingCXReceipts_slice =
              SliceStable cx_less (range_values (pendingCXReceipts node) order1);
            st = fold (propose_step env) (range_values (pendingCXReceipts node) order2)
                   propose_init
        in (validReceiptsList st,
            node\<lparr>pendingCXReceipts := requeue env (pendingReceiptsList st),
                 logged := logged node @ propose_log st @
                   [(Debug, ''[proposeReceiptsProof] number of validReceipts %d'')]\<rparr>))"

section \<open>node: messages of the sync sub-protocol\<close>

type_synonym peer_ID = string

record SyncBlockHeight =
  sbh_ShardId :: uint32
  BeaconHeight :: uint64
  BeaconHash :: bytes
  ShardHeight :: uint64
  ShardHash :: bytes

record SyncBlockHeader =
  sh_Height :: uint64
  sh_ShardId :: uint32
  HeaderRlp :: bytes

record SyncBlock =
  sb_Height :: uint64
  sb_ShardId :: uint32
  BlockRlp :: bytes

datatype Request =
    NoRequest
  | Message_SyncBlockHeight SyncBlockHeight
  | Message_SyncBlockHeader SyncBlockHeader
  | Message_SyncBlock SyncBlock

datatype ServiceType = CONSENSUS | CLIENT_SUPPORT

datatype MessageType =
    ANNOUNCE | PREPARE | PREPARED | COMMIT | COMMITTED | VIEWCHANGE | NEWVIEW
  | SYNC_REQUEST_BLOCK_HEIGHT | SYNC_RESPONSE_BLOCK_HEIGHT
  | SYNC_REQUEST_BLOCK_HEADER | SYNC_RESPONSE_BLOCK_HEADER
  | SYNC_REQUEST_BLOCK | SYNC_RESPONSE_BLOCK

record Message =
  msg_ServiceType :: ServiceType
  msg_Type :: MessageType
  msg_Request :: Request

text \<open>
  The generated getters are nil-safe: a message that carries another request gives a nil
  sub-message, and a field of a nil sub-message is the zero value of its type.
\<close>

definition GetSyncBlockHeight :: "Message \<Rightarrow> SyncBlockHeight option" where
  "GetSyncBlockHeight m =
     (case msg_Request m of Message_SyncBlockHeight x \<Rightarrow> Some x | _ \<Rightarrow> None)"

definition GetSyncBlockHeader :: "Message \<Rightarrow> SyncBlockHeader option" where
  "GetSyncBlockHeader m =
     (case msg_Request m of Message_SyncBlockHeader x \<Rightarrow> Some x | _ \<Rightarrow> None)"

definition GetSyncBlock :: "Message \<Rightarrow> SyncBlock option" where
  "GetSyncBlock m = (case msg_Request m of Message_SyncBlock x \<Rightarrow> Some x | _ \<Rightarrow> None)"

definition GetShardHash :: "SyncBlockHeight option \<Rightarrow> bytes" where
  "GetShardHash x = (case x of None \<Rightarrow> [] | Some h \<Rightarrow> ShardHash h)"

definition GetBeaconHash :: "SyncBlockHeight option \<Rightarrow> bytes" where
  "GetBeaconHash x = (case x of None \<Rightarrow> [] | Some h \<Rightarrow> BeaconHash h)"

section \<open>node: serving block and header requests\<close>

record Block =
  blk_Header :: Header
  blk_Body :: bytes
  blk_CommitSig :: bytes

text \<open>
  Of a blockchain the handlers read the current block and header and the block and header
  at a number; the two lookups give a nil pointer (\<open>None\<close>) when nothing is stored there.
\<close>

record BlockChain =
  CurrentBlock :: Block
  CurrentHeader :: Header
  GetBlockByNumber :: "uint64 \<Rightarrow> Block option"
  GetHeaderByNumber :: "uint64 \<Rightarrow> Header option"

text \<open>
  The node as the handlers see it: the beacon chain, the chain of the node's shard, the
  constant \<^verbatim>\<open>shard.BeaconChainShardID\<close>, and \<^verbatim>\<open>rlp.EncodeToBytes\<close> at the two
  types it is called at, which returns the encoding or an error.
\<close>

record SyncNode =
  Beaconchain :: BlockChain
  Blockchain :: BlockChain
  BeaconChainShardID :: uint32
  rlp_EncodeBlocks :: "Block option list \<Rightarrow> string + bytes"
  rlp_EncodeHeaders :: "Header option list \<Rightarrow> string + bytes"

text \<open>
  The errors of the handlers: \<^verbatim>\<open>errDoNotHaveDesiredBlockNum\<close> (``do not have block
  num''), wrapped with the two numbers, and the error of the encoder.
\<close>

datatype sync_error =
    errDoNotHaveDesiredBlockNum uint64 uint64
  | rlp_error string

definition syncRespBlockHeaderHandler :: "SyncNode \<Rightarrow> Message \<Rightarrow> sync_error + Message" where
  "syncRespBlockHeaderHandler node msg =
     (let desiredBlockNum = (case GetSyncBlockHeader msg of None \<Rightarrow> 0 | Some x \<Rightarrow> sh_Height x);
          shardID = (case GetSyncBlockHeader msg of None \<Rightarrow> 0 | Some x \<Rightarrow> sh_ShardId x);
          header = (if shardID = BeaconChainShardID node
                    then CurrentHeader (Beaconchain node)
                    else CurrentHeader (Blockchain node));
          latest = Uint64 (Number header)
      in if desiredBlockNum > latest
         then Inl (errDoNotHaveDesiredBlockNum desiredBlockNum latest)
         else
           let header' = (if shardID = BeaconChainShardID node
                          then GetHeaderByNumber (Beaconchain node) desiredBlockNum
                          else GetHeaderByNumber (Blockchain node) desiredBlockNum)
           in case rlp_EncodeHeaders node [header'] of
                Inl err \<Rightarrow> Inl (rlp_error err)
              | Inr headersData \<Rightarrow>
                  Inr \<lparr>msg_ServiceType = CLIENT_SUPPORT,
                       msg_Type = SYNC_RESPONSE_BLOCK_HEADER,
                       msg_Request = Message_SyncBlockHeader
                         \<lparr>sh_Height = 0, sh_ShardId = 0, HeaderRlp = headersData\<rparr>\<rparr>)"

definition syncRespBlockHandler :: "SyncNode \<Rightarrow> Message \<Rightarrow> sync_error + Message" where
  "syncRespBlockHandler node msg =
     (let desiredBlockNum = (case GetSyncBlock msg of None \<Rightarrow> 0 | Some x \<Rightarrow> sb_Height x);
          shardID = (case GetSyncBlock msg of None \<Rightarrow> 0 | Some x \<Rightarrow> sb_ShardId x);
          block = (if shardID = BeaconChainShardID node
                   then CurrentBlock (Beaconchain node)
                   else CurrentBlock (Blockchain node));
          latest = Uint64 (Number (blk_Header block))
      in if desiredBlockNum > latest
         then Inl (errDoNotHaveDesiredBlockNum desiredBlockNum latest)
         else
           let block' = (if shardID = BeaconChainShardID node
                         then GetBlockByNumber (Beaconchain node) desiredBlockNum
                         else GetBlockByNumber (Blockchain node) desiredBlockNum)
           in case rlp_EncodeBlocks node [block'] of
                Inl err \<Rightarrow> Inl (rlp_error err)
              | Inr blocksData \<Rightarrow>
                  Inr \<lparr>msg_ServiceType = CLIENT_SUPPORT,
                       msg_Type = SYNC_RESPONSE_BLOCK,
                       msg_Request = Message_SyncBlock
                         \<lparr>sb_Height = 0, sb_ShardId = 0, BlockRlp = blocksData\<rparr>\<rparr>)"

section \<open>node: the most common hash among the peers\<close>

text \<open>
  \<^verbatim>\<open>common.BytesToHash\<close>: the last 32 bytes of the argument, padded with zero bytes on
  the left to 32 bytes.
\<close>

definition BytesToHash :: "bytes \<Rightarrow> Hash" where
  "BytesToHash b = (let b' = drop (length b - 32) b in replicate (32 - length b') 0 @ b')"

record hashCount =
  hash :: Hash
  peersWithIt :: "peer_ID list"

record mostCommonHash =
  beacon :: "hashCount list"
  shard :: "hashCount list"

text \<open>
  Reading a missing key of a \<^verbatim>\<open>map[common.Hash]hashCount\<close> gives the zero value: the
  zero hash and a nil slice.
\<close>

definition zero_hashCount :: hashCount where
  "zero_hashCount = \<lparr>hash = replicate 32 0, peersWithIt = []\<rparr>"

definition add_peer ::
  "(Hash, hashCount) fmap \<Rightarrow> Hash \<Rightarrow> peer_ID \<Rightarrow> (Hash, hashCount) fmap" where
  "add_peer counters h peerID =
     (let current = (case fmlookup counters h of None \<Rightarrow> zero_hashCount | Some c \<Rightarrow> c)
      in fmupd h (current\<lparr>peersWithIt := peersWithIt current @ [peerID]\<rparr>) counters)"

definition shardHash_of :: "Message \<Rightarrow> Hash" where
  "shardHash_of c = BytesToHash (GetShardHash (GetSyncBlockHeight c))"

definition beaconHash_of :: "Message \<Rightarrow> Hash" where
  "beaconHash_of c = BytesToHash (GetBeaconHash (GetSyncBlockHeight c))"

text \<open>The body of the first loop, for the entry \<open>(peerID, c)\<close> of the map.\<close>

definition count_step ::
  "peer_ID \<times> Message \<Rightarrow> (Hash, hashCount) fmap \<times> (Hash, hashCount) fmap
     \<Rightarrow> (Hash, hashCount) fmap \<times> (Hash, hashCount) fmap" where
  "count_step e counters =
     (case e of (peerID, c) \<Rightarrow>
        case counters of (beaconCounters, shardCounters) \<Rightarrow>
          (add_peer beaconCounters (beaconHash_of c) peerID,
           add_peer shardCounters (shardHash_of c) peerID))"

text \<open>The entries of a map in the order in which a range visits its keys.\<close>

definition range_entries :: "('k, 'v) fmap \<Rightarrow> 'k list \<Rightarrow> ('k \<times> 'v) list" where
  "range_entries m order = List.map_filter (\<lambda>k. map_option (Pair k) (fmlookup m k)) order"

definition commonHash_counters ::
  "(peer_ID, Message) fmap \<Rightarrow> peer_ID list
     \<Rightarrow> (Hash, hashCount) fmap \<times> (Hash, hashCount) fmap" where
  "commonHash_counters collect orderC =
     fold count_step (range_entries collect orderC) (fmempty, fmempty)"

definition with_hash :: "Hash \<times> hashCount \<Rightarrow> hashCount" where
  "with_hash e = (case e of (h, value) \<Rightarrow> value\<lparr>hash := h\<rparr>)"

definition more_peers :: "hashCount \<Rightarrow> hashCount \<Rightarrow> bool" where
  "more_peers x y = (length (peersWithIt x) > length (peersWithIt y))"

text \<open>
  \<^verbatim>\<open>commonHash\<close>. \<open>orderC\<close>, \<open>orderB\<close> and \<open>orderS\<close> are the orders in which the
  three ranges visit the keys of \<^verbatim>\<open>collect\<close>, \<^verbatim>\<open>beaconCounters\<close> and
  \<^verbatim>\<open>shardCounters\<close>.
\<close>

definition commonHash ::
  "(peer_ID, Message) fmap \<Rightarrow> peer_ID list \<Rightarrow> Hash list \<Rightarrow> Hash list \<Rightarrow> mostCommonHash" where
  "commonHash collect orderC orderB orderS =
     (case commonHash_counters collect orderC of (beaconCounters, shardCounters) \<Rightarrow>
        let b = map with_hash (range_entries beaconCounters orderB);
            s = map with_hash (range_entries shardCounters orderS)
        in \<lparr>beacon = SliceStable more_peers b, shard = SliceStable more_peers s\<rparr>)"

section \<open>node: choosing the peers to probe\<close>

text \<open>
  A Go slice is a window on an array: its elements, and the capacity that remains in the
  array from the start of the window. \<open>sl_array\<close> is the array from the start of the slice
  (its length is the capacity), \<open>sl_len\<close> the length of the slice. The elements are
  interface values, which may be nil (\<open>None\<close>); memory that \<^verbatim>\<open>append\<close> allocates and
  does not fill is zeroed, that is, nil.
\<close>

record 'a slice =
  sl_array :: "'a option list"
  sl_len :: nat

definition nil_slice :: "'a slice" where
  "nil_slice = \<lparr>sl_array = [], sl_len = 0\<rparr>"

definition sl_cap :: "'a slice \<Rightarrow> nat" where
  "sl_cap s = length (sl_array s)"

definition sl_elems :: "'a slice \<Rightarrow> 'a option list" where
  "sl_elems s = take (sl_len s) (sl_array s)"

text \<open>
  \<^verbatim>\<open>append(s, x)\<close> writes into the array when the capacity allows, and otherwise copies
  the elements to a new array. The language leaves the capacity of the new array open;
  \<open>growcap\<close> gives it, from the old capacity. The Go runtime doubles the capacity of a
  short slice and starts at 1 (\<open>gc_growcap\<close>): appending one element at a time to a nil
  slice of interface values gives the capacities 1, 2, 4, 8.
\<close>

definition append1 :: "(nat \<Rightarrow> nat) \<Rightarrow> 'a slice \<Rightarrow> 'a \<Rightarrow> 'a slice" where
  "append1 growcap s x =
     (if sl_len s < sl_cap s
      then \<lparr>sl_array = (sl_array s)[sl_len s := Some x], sl_len = sl_len s + 1\<rparr>
      else \<lparr>sl_array = sl_elems s @ [Some x] @ replicate (growcap (sl_cap s) - sl_len s - 1) None,
            sl_len = sl_len s + 1\<rparr>)"

definition gc_growcap :: "nat \<Rightarrow> nat" where
  "gc_growcap c = (if c = 0 then 1 else 2 * c)"

datatype panic = SliceBoundsOutOfRange nat nat | NilPointerDereference

datatype 'a outcome = Returned 'a | Failed string | Panicked panic

text \<open>
  The slice expression \<^verbatim>\<open>s[:n]\<close>: for a slice the upper bound is checked against the
  capacity, not the length; beyond the capacity the expression panics.
\<close>

definition slice_upto :: "'a slice \<Rightarrow> nat \<Rightarrow> panic + 'a slice" where
  "slice_upto s n =
     (if n > sl_cap s then Inl (SliceBoundsOutOfRange n (sl_cap s))
      else Inr \<lparr>sl_array = sl_array s, sl_len = n\<rparr>)"

text \<open>
  What the sync round asks of the host: the connected peers, whether the context carries
  the trie of stream handles and whether it holds a handle for a peer, the binary form of a
  peer id, the protocols a peer supports, the name of the protocol, and the answer of a
  peer to a height probe. A connection is identified with the id of its peer.
\<close>

record SyncEnv =
  Swarm_Peers :: "string + peer_ID list"
  okTrie :: bool
  Lookup_exists :: "bytes \<Rightarrow> bool"
  MarshalBinary :: "peer_ID \<Rightarrow> string + bytes"
  SupportsProtocols :: "peer_ID \<Rightarrow> string + string list"
  p2p_Protocol :: string
  height_probe :: "peer_ID \<Rightarrow> string + Message"
  growcap :: "nat \<Rightarrow> nat"

fun filter_peers :: "SyncEnv \<Rightarrow> peer_ID list \<Rightarrow> peer_ID slice \<Rightarrow> string + peer_ID slice" where
  "filter_peers env [] filtered = Inr filtered"
| "filter_peers env (neighbor # conns) filtered =
     (case MarshalBinary env neighbor of
        Inl err \<Rightarrow> Inl err
      | Inr peerID \<Rightarrow>
          if Lookup_exists env peerID then filter_peers env conns filtered
          else
            (case SupportsProtocols env neighbor of
               Inl err \<Rightarrow> Inl err
             | Inr protocols \<Rightarrow>
                 if p2p_Protocol env \<notin> set protocols then filter_peers env conns filtered
                 else filter_peers env conns (append1 (growcap env) filtered neighbor)))"

definition harmonyProtocolPeers :: "SyncEnv \<Rightarrow> peer_ID list \<Rightarrow> string + peer_ID slice" where
  "harmonyProtocolPeers env conns =
     (if \<not> okTrie env then Inl ''could not cast from context value''
      else filter_peers env conns nil_slice)"

text \<open>
  \<^verbatim>\<open>protocolPeerHeights\<close> runs a feeder, ten workers and a collector in an error group.
  The feeder walks the slice: for every entry it calls \<^verbatim>\<open>ID()\<close>, which panics on a nil
  entry and so ends the program, and then either hands the id to a worker or, when the
  context of the group is done, returns. A worker probes the peer it was handed; a probe
  that fails makes the worker return the error, which cancels the context of the group.
  The function waits for all of them and returns the first error, or the map of the
  answers.

  The outcome depends on the order in which these steps happen. That order is an argument
  of the model, a \<open>schedule\<close>:
  \<^item> \<open>feeder_stop = Some j\<close>: at entry \<open>j\<close> the feeder takes the branch of the done
    context. This can only happen when the entries up to \<open>j\<close> are not nil and the context
    is done by then: a probe of an earlier entry has failed, or the caller's context was
    cancelled. Otherwise the feeder walks on to the end of the slice.
  \<^item> \<open>first_error = Some i\<close>: the probe of entry \<open>i\<close> is the first to fail, when it
    fails at all; otherwise the first failure is the first in the order of the slice.
  \<^item> \<open>outside_cancel = Some err\<close>: the caller's context is cancelled during the call,
    with the error \<open>err\<close>, and a goroutine that has not failed before returns it.
\<close>

record schedule =
  feeder_stop :: "nat option"
  first_error :: "nat option"
  outside_cancel :: "string option"

fun probe_all :: "SyncEnv \<Rightarrow> peer_ID list \<Rightarrow> (peer_ID, Message) fmap
    \<Rightarrow> string + (peer_ID, Message) fmap" where
  "probe_all env [] reduce = Inr reduce"
| "probe_all env (p # ps) reduce =
     (case height_probe env p of
        Inl err \<Rightarrow> Inl err
      | Inr rpmes \<Rightarrow> probe_all env ps (fmupd p rpmes reduce))"

text \<open>The error of the probe of entry \<open>i\<close> of the window \<open>w\<close>, if that probe fails.\<close>

definition probe_error :: "SyncEnv \<Rightarrow> peer_ID option list \<Rightarrow> nat \<Rightarrow> string option" where
  "probe_error env w i =
     (if i < length w
      then (case w ! i of
              None \<Rightarrow> None
            | Some p \<Rightarrow> (case height_probe env p of Inl err \<Rightarrow> Some err | Inr rpmes \<Rightarrow> None))
      else None)"

text \<open>
  The failure that the schedule puts first, among the probes of the entries before
  \<open>limit\<close>, which are the entries handed to a worker so far.
\<close>

definition chosen_error ::
  "SyncEnv \<Rightarrow> peer_ID option list \<Rightarrow> schedule \<Rightarrow> nat \<Rightarrow> string option" where
  "chosen_error env w sched limit =
     (case first_error sched of
        None \<Rightarrow> None
      | Some i \<Rightarrow> if i < limit then probe_error env w i else None)"

text \<open>The feeder walks to the end of the window \<open>w\<close>.\<close>

definition feed_to_end ::
  "SyncEnv \<Rightarrow> peer_ID option list \<Rightarrow> schedule \<Rightarrow> (peer_ID, Message) fmap outcome" where
  "feed_to_end env w sched =
     (if None \<in> set w then Panicked NilPointerDereference
      else case chosen_error env w sched (length w) of
             Some err \<Rightarrow> Failed err
           | None \<Rightarrow>
               (case probe_all env (List.map_filter id w) fmempty of
                  Inl err \<Rightarrow> Failed err
                | Inr reduce \<Rightarrow>
                    (case outside_cancel sched of
                       Some err \<Rightarrow> Failed err
                     | None \<Rightarrow> Returned reduce)))"

definition protocolPeerHeights ::
  "SyncEnv \<Rightarrow> peer_ID slice \<Rightarrow> schedule \<Rightarrow> (peer_ID, Message) fmap outcome" where
  "protocolPeerHeights env conns sched =
     (let w = sl_elems conns
      in case feeder_stop sched of
           None \<Rightarrow> feed_to_end env w sched
         | Some j \<Rightarrow>
             if j < length w \<and> None \<notin> set (take (Suc j) w)
             then (case chosen_error env w sched j of
                     Some err \<Rightarrow> Failed err
                   | None \<Rightarrow>
                       (case outside_cancel sched of
                          Some err \<Rightarrow> Failed err
                        | None \<Rightarrow> feed_to_end env w sched))
             else feed_to_end env w sched)"

text \<open>
  \<^verbatim>\<open>syncFromHMYPeersIfNeeded\<close>, up to the answers of the probed peers; \<open>fetch\<close> stands
  for the rest of the round, which asks one peer of each group for the next block.
\<close>

definition syncFromHMYPeersIfNeeded ::
  "SyncEnv \<Rightarrow> ((peer_ID, Message) fmap \<Rightarrow> unit outcome) \<Rightarrow> schedule \<Rightarrow> unit outcome" where
  "syncFromHMYPeersIfNeeded env fetch sched =
     (case Swarm_Peers env of
        Inl err \<Rightarrow> Failed err
      | Inr conns \<Rightarrow>
          (case harmonyProtocolPeers env conns of
             Inl err \<Rightarrow> Failed err
           | Inr hmyConns \<Rightarrow>
               (case slice_upto hmyConns 7 of
                  Inl p \<Rightarrow> Panicked p
                | Inr firstConns \<Rightarrow>
                    (case protocolPeerHeights env firstConns sched of
                       Panicked p \<Rightarrow> Panicked p
                     | Failed err \<Rightarrow> Failed err
                     | Returned collect \<Rightarrow>
                         if collect = fmempty then Returned () else fetch collect))))"

section \<open>staking/slash: the double-sign record\<close>

text \<open>The headers and signatures of a record are pointers, which may be nil.\<close>

record slash_Record =
  Offender :: bytes
  Signed_Header :: "Header option"
  Signed_Signature :: "bytes option"
  DoubleSigned_Header :: "Header option"
  DoubleSigned_Signature :: "bytes option"
  Beneficiary :: bytes

definition Verify :: "slash_Record \<Rightarrow> string option" where
  "Verify candidate = None"

section \<open>consensus: the FBFT log\<close>

type_synonym PublicKey = bytes

record FBFTMessage =
  fm_MessageType :: MessageType
  fm_ViewID :: uint64
  fm_BlockNum :: uint64
  fm_BlockHash :: Hash
  fm_SenderPubkey :: PublicKey
  fm_Payload :: bytes

record FBFTLog =
  log_blocks :: "Block list"
  log_messages :: "FBFTMessage list"

definition NumberU64 :: "Block \<Rightarrow> uint64" where
  "NumberU64 b = Uint64 (Number (blk_Header b))"

text \<open>
  The methods of the FBFT log are not among the source files. The spec (4.1) names the
  operations \<open>messages_by_type_seq(t, n)\<close>, \<open>messages_by_type_seq_hash(t, n, h)\<close>,
  \<open>get_block_by_hash(h)\<close>, \<open>find_by_max_view_id(msgs)\<close> and \<open>delete_less_than(n)\<close> of
  a container indexed by (type, block-number, view-id, block-hash), and says that entries
  older than the bound are garbage-collected and the others retained.
\<close>

text \<open>
  Modelled from the spec: \<^verbatim>\<open>FBFTLog.GetMessagesByTypeSeq\<close> is missing; after
  \<open>messages_by_type_seq(t, n)\<close>, the messages of type \<open>t\<close> for block number \<open>n\<close>.
\<close>

definition GetMessagesByTypeSeq :: "FBFTLog \<Rightarrow> MessageType \<Rightarrow> uint64 \<Rightarrow> FBFTMessage list" where
  "GetMessagesByTypeSeq lg t n =
     filter (\<lambda>m. fm_MessageType m = t \<and> fm_BlockNum m = n) (log_messages lg)"

text \<open>
  Modelled from the spec: \<^verbatim>\<open>FBFTLog.GetMessagesByTypeSeqHash\<close> is missing; after
  \<open>messages_by_type_seq_hash(t, n, h)\<close>, the messages of type \<open>t\<close> for block number
  \<open>n\<close> and block hash \<open>h\<close>.
\<close>

definition GetMessagesByTypeSeqHash ::
  "FBFTLog \<Rightarrow> MessageType \<Rightarrow> uint64 \<Rightarrow> Hash \<Rightarrow> FBFTMessage list" where
  "GetMessagesByTypeSeqHash lg t n h =
     filter (\<lambda>m. fm_MessageType m = t \<and> fm_BlockNum m = n \<and> fm_BlockHash m = h)
       (log_messages lg)"

text \<open>
  Modelled from the spec: \<^verbatim>\<open>FBFTLog.GetBlockByHash\<close> is missing; after
  \<open>get_block_by_hash(h)\<close>, the block of the log with hash \<open>h\<close>, or nil.
\<close>

definition GetBlockByHash :: "FBFTLog \<Rightarrow> Hash \<Rightarrow> Block option" where
  "GetBlockByHash lg h = find (\<lambda>b. hdr_Hash (blk_Header b) = h) (log_blocks lg)"

text \<open>
  Modelled from the spec: \<^verbatim>\<open>FBFTLog.FindMessageByMaxViewID\<close> is missing; after
  \<open>find_by_max_view_id(msgs)\<close>, a message of the greatest view id, or nil for no
  messages.
\<close>

fun FindMessageByMaxViewID :: "FBFTMessage list \<Rightarrow> FBFTMessage option" where
  "FindMessageByMaxViewID [] = None"
| "FindMessageByMaxViewID (m # ms) =
     (case FindMessageByMaxViewID ms of
        None \<Rightarrow> Some m
      | Some m' \<Rightarrow> if fm_ViewID m' > fm_ViewID m then Some m' else Some m)"

text \<open>
  Modelled from the spec: \<^verbatim>\<open>FBFTLog.DeleteBlocksLessThan\<close> is missing; after
  \<open>delete_less_than(n)\<close>, the blocks with a number below \<open>n\<close> are removed and the
  others retained.
\<close>

definition DeleteBlocksLessThan :: "FBFTLog \<Rightarrow> uint64 \<Rightarrow> FBFTLog" where
  "DeleteBlocksLessThan lg n = lg\<lparr>log_blocks := filter (\<lambda>b. \<not> NumberU64 b < n) (log_blocks lg)\<rparr>"

text \<open>
  Modelled from the spec: \<^verbatim>\<open>FBFTLog.DeleteMessagesLessThan\<close> is missing; after
  \<open>delete_less_than(n)\<close>, the messages with a block number below \<open>n\<close> are removed
  and the others retained.
\<close>

definition DeleteMessagesLessThan :: "FBFTLog \<Rightarrow> uint64 \<Rightarrow> FBFTLog" where
  "DeleteMessagesLessThan lg n =
     lg\<lparr>log_messages := filter (\<lambda>m. \<not> fm_BlockNum m < n) (log_messages lg)\<rparr>"

section \<open>consensus: the state of the state machine\<close>

datatype FBFTPhase = FBFTAnnounce | FBFTPrepare | FBFTCommit

datatype Mode = Normal | ViewChanging | Listening

datatype Phase = Prepare | Commit | ViewChange

text \<open>
  A finalization that \<open>onCommit\<close> has scheduled: the time at which the timer fires and the
  view id that it sends on \<^verbatim>\<open>CommitFinishChan\<close>. The timer is started in a goroutine and
  reads the due time and the view id when it runs; the model takes their values at the time
  of the call. A timer whose time has passed fires at once.
\<close>

record timer =
  fire_at :: nat
  sends_viewID :: uint64

text \<open>
  The fields of \<^verbatim>\<open>Consensus\<close> that the functions below read or write. The decider and
  the commit bitmap are kept as values of the types \<open>'d\<close> and \<open>'b\<close>: the decider is an
  interface, and the operations of both are given by the environment.
\<close>

record ('d, 'b) Consensus =
  c_blockNum :: uint64
  c_viewID :: uint64
  c_blockHash :: Hash
  c_LeaderPubKey :: PublicKey
  c_phase :: FBFTPhase
  c_mode :: Mode
  c_epoch :: uint64
  c_ShardID :: uint32
  c_FBFTLog :: FBFTLog
  c_Decider :: 'd
  c_commitBitmap :: 'b
  c_NextBlockDue :: nat
  c_timers :: "timer list"

section \<open>consensus: catching up and collecting garbage\<close>

text \<open>
  The chain verifier, the post-consensus processing and the chain reader are interfaces:
  \<^verbatim>\<open>ValidateBody\<close> and \<^verbatim>\<open>Process\<close> return an error message or nothing.
\<close>

record CatchupEnv =
  ValidateBody :: "Block \<Rightarrow> string option"
  PostConsensus_Process :: "Block \<Rightarrow> string option"
  ChainReader_CurrentHeader :: Header

text \<open>
  Modelled from the spec: \<^verbatim>\<open>ResetState\<close> is not among the source files. The spec
  (4.3, step 5) says that finalization ``advances block-number, resets phase''; the block
  number is advanced by \<open>tryCatchup\<close> itself, and \<open>ResetState\<close> puts the phase back to
  Announce and clears the hash of the current block. The tallies are those of the decider.
\<close>

definition ResetState :: "('d, 'b) Consensus \<Rightarrow> ('d, 'b) Consensus" where
  "ResetState c = c\<lparr>c_phase := FBFTAnnounce, c_blockHash := replicate 32 0\<rparr>"

text \<open>
  The end of \<open>tryCatchup\<close>, after the loop: \<open>then_num\<close> is the block number at the start.
  \<^verbatim>\<open>now - 1\<close> is a subtraction of unsigned 64-bit numbers.
\<close>

definition catchup_cleanup ::
  "uint64 \<Rightarrow> ('d, 'b) Consensus \<Rightarrow> string option \<times> ('d, 'b) Consensus" where
  "catchup_cleanup then_num c =
     (let now = c_blockNum c;
          c1 = (if then_num < now then c\<lparr>c_phase := FBFTAnnounce\<rparr> else c);
          c2 = (if then_num < now \<and> c_mode c1 = ViewChanging then c1\<lparr>c_mode := Normal\<rparr> else c1)
      in (None, c2\<lparr>c_FBFTLog :=
                    DeleteMessagesLessThan (DeleteBlocksLessThan (c_FBFTLog c2) (now - 1))
                      (now - 1)\<rparr>))"

text \<open>
  \<open>tryCatchup\<close>. Every path through the body of the \<^verbatim>\<open>for\<close> loop ends in
  \<^verbatim>\<open>break\<close> or \<^verbatim>\<open>return\<close>, so the body runs once. The block that
  \<^verbatim>\<open>SetCurrentCommitSig\<close> changes is the one the log points to, so the log sees the
  change.
\<close>

definition tryCatchup ::
  "CatchupEnv \<Rightarrow> ('d, 'b) Consensus \<Rightarrow> string option \<times> ('d, 'b) Consensus" where
  "tryCatchup env c =
     (let then_num = c_blockNum c
      in case GetMessagesByTypeSeq (c_FBFTLog c) COMMITTED (c_blockNum c) of
           [] \<Rightarrow> catchup_cleanup then_num c
         | [committedMsg] \<Rightarrow>
             (case GetBlockByHash (c_FBFTLog c) (fm_BlockHash committedMsg) of
                None \<Rightarrow> (Some ''[TryCatchup] Failed finding a valid committed message'', c)
              | Some block \<Rightarrow>
                  (case ValidateBody env block of
                     Some err \<Rightarrow> (Some ''why could not validate body?'', c)
                   | None \<Rightarrow>
                       if ParentHash (blk_Header block) \<noteq> hdr_Hash (ChainReader_CurrentHeader env)
                       then (Some ''parent block hash not match'', c)
                       else
                         (case FindMessageByMaxViewID
                                 (GetMessagesByTypeSeqHash (c_FBFTLog c) PREPARED
                                    (fm_BlockNum committedMsg) (fm_BlockHash committedMsg)) of
                            None \<Rightarrow> catchup_cleanup then_num c
                          | Some msg \<Rightarrow>
                              let block' = block\<lparr>blk_CommitSig := fm_Payload committedMsg\<rparr>;
                                  c1 = c\<lparr>c_blockHash := replicate 32 0,
                                         c_blockNum := c_blockNum c + 1,
                                         c_viewID := fm_ViewID committedMsg + 1,
                                         c_LeaderPubKey := fm_SenderPubkey committedMsg,
                                         c_FBFTLog := (c_FBFTLog c)\<lparr>log_blocks :=
                                            map (\<lambda>b. if b = block then block' else b)
                                              (log_blocks (c_FBFTLog c))\<rparr>\<rparr>
                              in case ValidateBody env block' of
                                   Some err \<Rightarrow> (Some err, c1)
                                 | None \<Rightarrow>
                                     (case PostConsensus_Process env block' of
                                        Some err \<Rightarrow> (Some err, c1)
                                      | None \<Rightarrow> catchup_cleanup then_num (ResetState c1)))))
         | _ \<Rightarrow> (Some ''we should only get one committed message for a given blockNum'', c))"

section \<open>consensus: the leader on a commit message\<close>

text \<open>
  What \<open>onCommit\<close> calls outside of these files: whether the node is the leader, the
  parser of the wire message, the double-sign check, the BLS signature (deserialization and
  verification), the chain reader for the commit payload, the decider (an interface) and
  the bitmap.
\<close>

record ('d, 'b) LeaderEnv =
  IsLeader :: "('d, 'b) Consensus \<Rightarrow> bool"
  ParseFBFTMessage :: "Message \<Rightarrow> string + FBFTMessage"
  checkDoubleSign :: "('d, 'b) Consensus \<Rightarrow> FBFTMessage \<Rightarrow> bool"
  Deserialize :: "bytes \<Rightarrow> string + bytes"
  VerifyHash :: "bytes \<Rightarrow> PublicKey \<Rightarrow> bytes \<Rightarrow> bool"
  ChainReader :: signatureChainReader
  SubmitVote :: "'d \<Rightarrow> Phase \<Rightarrow> PublicKey \<Rightarrow> bytes \<Rightarrow> Hash \<Rightarrow> uint64 \<Rightarrow> uint64 \<Rightarrow> string + 'd"
  IsAllSigsCollected :: "'d \<Rightarrow> bool"
  IsQuorumAchieved :: "'d \<Rightarrow> Phase \<Rightarrow> bool"
  SetKey :: "'b \<Rightarrow> PublicKey \<Rightarrow> bool \<Rightarrow> string + 'b"

text \<open>
  Modelled from the spec: \<^verbatim>\<open>isRightBlockNumAndViewID\<close> is not among the source files.
  The spec (4.3, step 4) has ``check not-right-block-or-view, then drop'': the message is
  for the right block and view when its view id and block number are those of the
  consensus.
\<close>

definition isRightBlockNumAndViewID :: "('d, 'b) Consensus \<Rightarrow> FBFTMessage \<Rightarrow> bool" where
  "isRightBlockNumAndViewID c recvMsg =
     (fm_ViewID recvMsg = c_viewID c \<and> fm_BlockNum recvMsg = c_blockNum c)"

definition onCommit ::
  "('d, 'b) LeaderEnv \<Rightarrow> ('d, 'b) Consensus \<Rightarrow> Message
     \<Rightarrow> string option \<times> ('d, 'b) Consensus" where
  "onCommit env c msg =
     (if \<not> IsLeader env c then (None, c)
      else case ParseFBFTMessage env msg of
        Inl err \<Rightarrow> (Some err, c)
      | Inr recvMsg \<Rightarrow>
          if \<not> isRightBlockNumAndViewID c recvMsg then (None, c)
          else if checkDoubleSign env c recvMsg then (None, c)
          else
            let validatorPubKey = fm_SenderPubkey recvMsg;
                commitSig = fm_Payload recvMsg;
                commitBitmap = c_commitBitmap c
            in case Deserialize env commitSig of
                 Inl err \<Rightarrow> (Some err, c)
               | Inr sign \<Rightarrow>
                   let commitPayload =
                         ConstructCommitPayload (ChainReader env) (Some (uint (c_epoch c)))
                           (fm_BlockHash recvMsg) (fm_BlockNum recvMsg) (c_viewID c)
                   in if \<not> VerifyHash env sign (fm_SenderPubkey recvMsg) commitPayload
                      then (Some ''Cannot verify commit message'', c)
                      else
                        (case SubmitVote env (c_Decider c) Commit validatorPubKey sign
                                (fm_BlockHash recvMsg) (fm_BlockNum recvMsg) (fm_ViewID recvMsg) of
                           Inl err \<Rightarrow> (Some err, c)
                         | Inr d' \<Rightarrow>
                             let c1 = c\<lparr>c_Decider := d'\<rparr>
                             in case SetKey env commitBitmap (fm_SenderPubkey recvMsg) True of
                                  Inl err \<Rightarrow> (Some err, c1)
                                | Inr bm' \<Rightarrow>
                                    let c2 = c1\<lparr>c_commitBitmap := bm'\<rparr>
                                    in if IsAllSigsCollected env (c_Decider c2)
                                       then (None, c2\<lparr>c_timers := c_timers c2 @
                                               [\<lparr>fire_at = c_NextBlockDue c2,
                                                 sends_viewID = c_viewID c2\<rparr>]\<rparr>)
                                       else (None, c2)))"

section \<open>consensus: a decider after the spec\<close>

text \<open>
  The deciders of package \<^verbatim>\<open>quorum\<close> are not among the source files. The spec (4.2)
  says: \<open>submit_vote\<close> fails if the key is not in the committee and is idempotent for a
  vote already cast; \<open>is_quorum_achieved(phase)\<close> is true when the accumulated weight is
  more than two thirds of the total, each key weighing 1 before staking;
  \<open>is_all_sigs_collected()\<close> is true when every committee member signed.
\<close>

text \<open>
  Modelled from the spec: the state of a decider is missing; after 4.2, the ordered
  committee and the voters of each phase.
\<close>

record spec_decider =
  sd_participants :: "PublicKey list"
  sd_prepare :: "PublicKey list"
  sd_commit :: "PublicKey list"
  sd_viewchange :: "PublicKey list"

text \<open>Modelled from the spec: the tally of a phase (4.2), as the list of its voters.\<close>

definition sd_voters :: "spec_decider \<Rightarrow> Phase \<Rightarrow> PublicKey list" where
  "sd_voters d p = (case p of Prepare \<Rightarrow> sd_prepare d | Commit \<Rightarrow> sd_commit d
                    | ViewChange \<Rightarrow> sd_viewchange d)"

text \<open>
  Modelled from the spec: \<^verbatim>\<open>Decider.SubmitVote\<close> is missing; after \<open>submit_vote\<close>
  (4.2), it fails if the key is not in the committee, changes nothing for a key that has
  voted, and otherwise records the voter.
\<close>

definition spec_SubmitVote ::
  "spec_decider \<Rightarrow> Phase \<Rightarrow> PublicKey \<Rightarrow> bytes \<Rightarrow> Hash \<Rightarrow> uint64 \<Rightarrow> uint64
     \<Rightarrow> string + spec_decider" where
  "spec_SubmitVote d p key sig h n v =
     (if key \<notin> set (sd_participants d) then Inl ''signer is not in the committee''
      else if key \<in> set (sd_voters d p) then Inr d
      else Inr (case p of Prepare \<Rightarrow> d\<lparr>sd_prepare := sd_prepare d @ [key]\<rparr>
                | Commit \<Rightarrow> d\<lparr>sd_commit := sd_commit d @ [key]\<rparr>
                | ViewChange \<Rightarrow> d\<lparr>sd_viewchange := sd_viewchange d @ [key]\<rparr>))"

text \<open>
  Modelled from the spec: \<^verbatim>\<open>Decider.IsQuorumAchieved\<close> is missing; after
  \<open>is_quorum_achieved(phase)\<close> (4.2), more than two thirds of the committee have voted,
  every key weighing 1.
\<close>

definition spec_IsQuorumAchieved :: "spec_decider \<Rightarrow> Phase \<Rightarrow> bool" where
  "spec_IsQuorumAchieved d p =
     (3 * length (remdups (sd_voters d p)) > 2 * length (remdups (sd_participants d)))"

text \<open>
  Modelled from the spec: \<^verbatim>\<open>Decider.IsAllSigsCollected\<close> is missing; after
  \<open>is_all_sigs_collected()\<close> (4.2), every committee member has signed the commit.
\<close>

definition spec_IsAllSigsCollected :: "spec_decider \<Rightarrow> bool" where
  "spec_IsAllSigsCollected d = (\<forall>k \<in> set (sd_participants d). k \<in> set (sd_commit d))"

section \<open>Concrete inputs: the receipt pool\<close>

text \<open>
  A node of shard 2 whose collaborators accept everything, with a key function that writes
  the two numbers in unary. \<open>mk_cxp src num h dst\<close> is a proof from block \<open>num\<close> of
  shard \<open>src\<close>, with block hash \<open>h\<close>, carrying one receipt for shard \<open>dst\<close>.
\<close>

definition key0 :: "uint32 \<Rightarrow> uint64 \<Rightarrow> string" where
  "key0 s n = replicate (unat s) CHR ''s'' @ ''-'' @ replicate (unat n) CHR ''b''"

definition env0 :: NodeEnv where
  "env0 = \<lparr>Consensus_ShardID = 2, Blockchain_ShardID = 2,
     AcceptsCrossTx = (\<lambda>_. True), HasCrossTxFields = (\<lambda>_. True),
     ValidateCXReceiptsProof = (\<lambda>_. None), IsSpent = (\<lambda>_. False),
     ContainsEmptyField = (\<lambda>_. False), Worker_CurrentEpoch = 1,
     MsgNoShardStateFromDB = ''no shard state'', GetPendingCXKey = key0\<rparr>"

definition node0 :: Node where
  "node0 = \<lparr>pendingCXReceipts = fmempty, logged = []\<rparr>"

definition mk_cxp :: "uint32 \<Rightarrow> int \<Rightarrow> Hash \<Rightarrow> uint32 \<Rightarrow> CXReceiptsProof" where
  "mk_cxp src num h dst =
     \<lparr>Receipts = [\<lparr>ToShardID = dst\<rparr>],
      MerkleProof = \<lparr>mp_BlockNum = num, mp_BlockHash = h, mp_ShardID = src\<rparr>,
      cxp_Header = \<lparr>Number = num, hdr_ShardID = src, Epoch = 1, ParentHash = [],
                    hdr_Hash = h\<rparr>\<rparr>"

definition cx_bad :: CXReceiptsProof where
  "cx_bad = mk_cxp 1 2 [7] 0"

definition cx_a :: CXReceiptsProof where
  "cx_a = mk_cxp 1 5 [5] 2"

definition cx_b :: CXReceiptsProof where
  "cx_b = mk_cxp 0 3 [3] 2"

definition node2 :: Node where
  "node2 = AddPendingReceipts env0 (AddPendingReceipts env0 node0 cx_b) cx_a"

text \<open>
  A pool with 4096 entries, from the blocks 1 to 4096 of shard 1, and a proof from block
  5000 of shard 1, for which the pool has no entry.
\<close>

definition full_pool :: "(string, CXReceiptsProof) fmap" where
  "full_pool = fmap_of_list (map (\<lambda>i. (key0 1 (of_nat i), mk_cxp 1 (int i) [] 2)) [1..<4097])"

definition full_node :: Node where
  "full_node = \<lparr>pendingCXReceipts = full_pool, logged = []\<rparr>"

definition cx_late :: CXReceiptsProof where
  "cx_late = mk_cxp 1 5000 [8] 2"

definition is_Error :: "log_entry \<Rightarrow> bool" where
  "is_Error e = (fst e = Error)"

section \<open>Notions used in the statements about the sync sub-protocol\<close>

text \<open>
  The peers of a list of map entries whose response has the hash \<open>h\<close> under the reading
  \<open>f\<close> (the shard hash or the beacon hash), in the order of the list; the set of the peers
  of the map with that hash; and a list of counts in descending order of the number of
  peers.
\<close>

definition peers_of ::
  "(Message \<Rightarrow> Hash) \<Rightarrow> Hash \<Rightarrow> (peer_ID \<times> Message) list \<Rightarrow> peer_ID list" where
  "peers_of f h es = map fst (filter (\<lambda>e. f (snd e) = h) es)"

definition reporters ::
  "(peer_ID, Message) fmap \<Rightarrow> (Message \<Rightarrow> Hash) \<Rightarrow> Hash \<Rightarrow> peer_ID set" where
  "reporters collect f h = {p. \<exists>c. fmlookup collect p = Some c \<and> f c = h}"

definition by_count_desc :: "hashCount list \<Rightarrow> bool" where
  "by_count_desc xs =
     sorted_wrt (\<lambda>x y. length (peersWithIt x) \<ge> length (peersWithIt y)) xs"

section \<open>Concrete inputs: the sync sub-protocol\<close>

text \<open>
  A chain whose head is block 10 and that has every block up to it, with an encoder that
  writes the number of each block, and the same node with an encoder that fails; and the responses of three peers, of which two report
  the shard hash \<open>hA\<close> and one the shard hash \<open>hB\<close>.
\<close>

definition hdr_at :: "int \<Rightarrow> Header" where
  "hdr_at n = \<lparr>Number = n, hdr_ShardID = 0, Epoch = 0, ParentHash = [],
               hdr_Hash = [word_of_int n]\<rparr>"

definition chain10 :: BlockChain where
  "chain10 = \<lparr>CurrentBlock = \<lparr>blk_Header = hdr_at 10, blk_Body = [], blk_CommitSig = []\<rparr>,
     CurrentHeader = hdr_at 10,
     GetBlockByNumber =
       (\<lambda>n. if n \<le> 10 then Some \<lparr>blk_Header = hdr_at (uint n), blk_Body = [], blk_CommitSig = []\<rparr> else None),
     GetHeaderByNumber = (\<lambda>n. if n \<le> 10 then Some (hdr_at (uint n)) else None)\<rparr>"

definition sync_node0 :: SyncNode where
  "sync_node0 = \<lparr>Beaconchain = chain10, Blockchain = chain10, BeaconChainShardID = 0,
     rlp_EncodeBlocks =
       (\<lambda>bs. Inr (map (\<lambda>b. case b of None \<Rightarrow> 0
                               | Some x \<Rightarrow> word_of_int (Number (blk_Header x))) bs)),
     rlp_EncodeHeaders =
       (\<lambda>hs. Inr (map (\<lambda>h. case h of None \<Rightarrow> 0 | Some x \<Rightarrow> word_of_int (Number x)) hs))\<rparr>"

definition sync_node_failing :: SyncNode where
  "sync_node_failing = sync_node0
     \<lparr>rlp_EncodeBlocks := (\<lambda>bs. Inl ''rlp: encoding failed''),
      rlp_EncodeHeaders := (\<lambda>hs. Inl ''rlp: encoding failed'')\<rparr>"

definition req_block :: "uint64 \<Rightarrow> Message" where
  "req_block n = \<lparr>msg_ServiceType = CLIENT_SUPPORT, msg_Type = SYNC_REQUEST_BLOCK,
     msg_Request = Message_SyncBlock \<lparr>sb_Height = n, sb_ShardId = 0, BlockRlp = []\<rparr>\<rparr>"

definition req_header :: "uint64 \<Rightarrow> Message" where
  "req_header n = \<lparr>msg_ServiceType = CLIENT_SUPPORT, msg_Type = SYNC_REQUEST_BLOCK_HEADER,
     msg_Request = Message_SyncBlockHeader \<lparr>sh_Height = n, sh_ShardId = 0, HeaderRlp = []\<rparr>\<rparr>"

definition hA :: Hash where
  "hA = BytesToHash [1]"

definition hB :: Hash where
  "hB = BytesToHash [2]"

definition height_msg :: "bytes \<Rightarrow> bytes \<Rightarrow> Message" where
  "height_msg bh sh = \<lparr>msg_ServiceType = CLIENT_SUPPORT, msg_Type = SYNC_RESPONSE_BLOCK_HEIGHT,
     msg_Request = Message_SyncBlockHeight
       \<lparr>sbh_ShardId = 0, BeaconHeight = 0, BeaconHash = bh, ShardHeight = 0, ShardHash = sh\<rparr>\<rparr>"

definition collect3 :: "(peer_ID, Message) fmap" where
  "collect3 = fmupd ''p3'' (height_msg [1] [1])
               (fmupd ''p2'' (height_msg [1] [2]) (fmupd ''p1'' (height_msg [1] [1]) fmempty))"

section \<open>Notions used in the statements about the peers to probe\<close>

text \<open>
  A connected peer is eligible when the loop of \<open>harmonyProtocolPeers\<close> appends it: its id
  has a binary form, the trie holds no stream handle for it, and it supports the protocol.
  A slice \<open>holds\<close> a list when its elements are the elements of the list, none of them
  nil, and the rest of its array is nil.
\<close>

definition eligible :: "SyncEnv \<Rightarrow> peer_ID \<Rightarrow> bool" where
  "eligible env p =
     (case MarshalBinary env p of
        Inl err \<Rightarrow> False
      | Inr peerID \<Rightarrow>
          \<not> Lookup_exists env peerID \<and>
          (case SupportsProtocols env p of
             Inl err \<Rightarrow> False
           | Inr protocols \<Rightarrow> p2p_Protocol env \<in> set protocols))"

definition holds :: "'a slice \<Rightarrow> 'a list \<Rightarrow> bool" where
  "holds s xs = (sl_len s = length xs \<and> (\<exists>k. sl_array s = map Some xs @ replicate k None))"

section \<open>Concrete inputs: the peers to probe\<close>

text \<open>
  \<open>sync_env n\<close> is a host with the first \<open>n\<close> of eight peers connected, all of them
  eligible and all answering the height probe, on a runtime that doubles capacities.
\<close>

definition all_peers :: "peer_ID list" where
  "all_peers = [''p1'', ''p2'', ''p3'', ''p4'', ''p5'', ''p6'', ''p7'', ''p8'']"

definition sync_env :: "nat \<Rightarrow> SyncEnv" where
  "sync_env n = \<lparr>Swarm_Peers = Inr (take n all_peers), okTrie = True,
     Lookup_exists = (\<lambda>_. False), MarshalBinary = (\<lambda>p. Inr []),
     SupportsProtocols = (\<lambda>_. Inr [''/hmy/0.0.1'']), p2p_Protocol = ''/hmy/0.0.1'',
     height_probe = (\<lambda>p. Inr (height_msg [1] [1])), growcap = gc_growcap\<rparr>"

definition no_fetch :: "(peer_ID, Message) fmap \<Rightarrow> unit outcome" where
  "no_fetch collect = Returned ()"

text \<open>
  Two schedules: in \<open>calm\<close> the feeder never sees a done context and nothing is cancelled;
  in \<open>stop_after_failure\<close> the probe of the first entry fails first and the feeder takes
  the done context at the third entry. \<open>sync_env_reset\<close> is the host with five peers of
  which the first answers the probe with an error.
\<close>

definition calm :: schedule where
  "calm = \<lparr>feeder_stop = None, first_error = None, outside_cancel = None\<rparr>"

definition stop_after_failure :: schedule where
  "stop_after_failure = \<lparr>feeder_stop = Some 2, first_error = Some 0, outside_cancel = None\<rparr>"

definition sync_env_reset :: SyncEnv where
  "sync_env_reset = (sync_env 5)
     \<lparr>height_probe := (\<lambda>p. if p = ''p1'' then Inl ''stream reset''
                            else Inr (height_msg [1] [1]))\<rparr>"

section \<open>Concrete inputs: consensus\<close>

text \<open>
  A committee of four keys. \<open>leader_with committed\<close> is the leader of block 1 in view 0,
  in the commit phase, with the commit votes of the keys \<open>committed\<close>; the environment
  \<open>envL\<close> parses every wire message as the commit vote of \<open>k3\<close>, accepts every
  signature and uses the decider after the spec. \<open>cons5\<close> is a consensus at block 5 whose
  log holds the blocks 3 and 5 and messages for the blocks 3, 4 and 5, among them the
  prepared and the committed message of block 5.
\<close>

definition k1 :: PublicKey where "k1 = [1]"
definition k2 :: PublicKey where "k2 = [2]"
definition k3 :: PublicKey where "k3 = [3]"
definition k4 :: PublicKey where "k4 = [4]"

definition commit_from_k3 :: FBFTMessage where
  "commit_from_k3 = \<lparr>fm_MessageType = COMMIT, fm_ViewID = 0, fm_BlockNum = 1,
     fm_BlockHash = [170], fm_SenderPubkey = k3, fm_Payload = [9]\<rparr>"

definition envL :: "(spec_decider, PublicKey list) LeaderEnv" where
  "envL = \<lparr>IsLeader = (\<lambda>_. True),
     ParseFBFTMessage = (\<lambda>_. Inr commit_from_k3),
     checkDoubleSign = (\<lambda>_ _. False),
     Deserialize = Inr,
     VerifyHash = (\<lambda>_ _ _. True),
     ChainReader = \<lparr>Config = \<lparr>IsStaking = (\<lambda>_. False)\<rparr>\<rparr>,
     SubmitVote = spec_SubmitVote,
     IsAllSigsCollected = spec_IsAllSigsCollected,
     IsQuorumAchieved = spec_IsQuorumAchieved,
     SetKey = (\<lambda>bm k v. if v then Inr (k # bm) else Inr (removeAll k bm))\<rparr>"

definition leader_with :: "PublicKey list \<Rightarrow> (spec_decider, PublicKey list) Consensus" where
  "leader_with committed = \<lparr>c_blockNum = 1, c_viewID = 0, c_blockHash = [170],
     c_LeaderPubKey = k1, c_phase = FBFTCommit, c_mode = Normal, c_epoch = 0, c_ShardID = 0,
     c_FBFTLog = \<lparr>log_blocks = [], log_messages = []\<rparr>,
     c_Decider = \<lparr>sd_participants = [k1, k2, k3, k4], sd_prepare = [k1, k2, k3],
                  sd_commit = committed, sd_viewchange = []\<rparr>,
     c_commitBitmap = committed, c_NextBlockDue = 8, c_timers = []\<rparr>"

definition commit_wire :: Message where
  "commit_wire = \<lparr>msg_ServiceType = CONSENSUS, msg_Type = COMMIT, msg_Request = NoRequest\<rparr>"

definition blk_at :: "int \<Rightarrow> Block" where
  "blk_at n = \<lparr>blk_Header = \<lparr>Number = n, hdr_ShardID = 0, Epoch = 1,
                  ParentHash = [word_of_int (n - 1)], hdr_Hash = [word_of_int n]\<rparr>,
               blk_Body = [], blk_CommitSig = []\<rparr>"

definition fbft_msg :: "MessageType \<Rightarrow> uint64 \<Rightarrow> FBFTMessage" where
  "fbft_msg t n = \<lparr>fm_MessageType = t, fm_ViewID = 0, fm_BlockNum = n,
     fm_BlockHash = [ucast n], fm_SenderPubkey = k1, fm_Payload = [1]\<rparr>"

definition cons5 :: "(spec_decider, PublicKey list) Consensus" where
  "cons5 = (leader_with [k1, k2, k3, k4])
     \<lparr>c_blockNum := 5, c_blockHash := [5],
      c_FBFTLog := \<lparr>log_blocks = [blk_at 3, blk_at 5],
                    log_messages = [fbft_msg ANNOUNCE 3, fbft_msg ANNOUNCE 4,
                                    fbft_msg PREPARED 5, fbft_msg COMMITTED 5]\<rparr>\<rparr>"

definition envT :: CatchupEnv where
  "envT = \<lparr>ValidateBody = (\<lambda>_. None), PostConsensus_Process = (\<lambda>_. None),
     ChainReader_CurrentHeader = blk_Header (blk_at 4)\<rparr>"

text \<open>What a block holds apart from the commit signature.\<close>

definition block_content :: "Block \<Rightarrow> Header \<times> bytes" where
  "block_content b = (blk_Header b, blk_Body b)"

section \<open>Concrete inputs: slashing\<close>

text \<open>A record whose two headers are one and the same header.\<close>

definition hdr7 :: Header where
  "hdr7 = \<lparr>Number = 7, hdr_ShardID = 0, Epoch = 1, ParentHash = [6], hdr_Hash = [7]\<rparr>"

definition same_header_record :: slash_Record where
  "same_header_record = \<lparr>Offender = k3, Signed_Header = Some hdr7, Signed_Signature = Some [9],
     DoubleSigned_Header = Some hdr7, DoubleSigned_Signature = Some [9], Beneficiary = []\<rparr>"

section \<open>Properties of the commit payload\<close>

lemma length_PutUint64: "length (PutUint64 v) = 8"
  by (simp add: PutUint64_def)

lemma unat_low_byte: "unat (ucast (w :: uint64) :: byte) = unat w mod 256"
  by (simp add: unsigned_ucast_eq take_bit_eq_mod unsigned_take_bit_eq)

lemma unat_shift8: "unat (drop_bit 8 (w :: uint64)) = unat w div 256"
proof -
  have "unat (drop_bit 8 w) = drop_bit 8 (unat w)" by (rule unat_drop_bit_eq)
  also have "\<dots> = unat w div 256" by (simp add: drop_bit_eq_div)
  finally show ?thesis .
qed

lemma le_value_PutUint64: "le_value (PutUint64 v) = unat v"
proof -
  have split8: "unat w = unat (ucast w :: byte) + 256 * unat (drop_bit 8 w)" for w :: uint64
    by (simp add: unat_low_byte unat_shift8)
  have top: "unat (drop_bit 56 v) < 256"
  proof -
    have "unat (drop_bit 56 v) = drop_bit 56 (unat v)" by (rule unat_drop_bit_eq)
    also have "\<dots> = unat v div 2 ^ 56" by (simp add: drop_bit_eq_div)
    finally have e: "unat (drop_bit 56 v) = unat v div 2 ^ 56" .
    have "unat v < 2 ^ 64" using unsigned_less [of v] by simp
    then have "unat v div 2 ^ 56 < 256" by (simp add: less_mult_imp_div_less)
    with e show ?thesis by simp
  qed
  have last8: "unat (ucast (drop_bit 56 v) :: byte) = unat (drop_bit 56 v)"
    using top by (simp add: unat_low_byte)
  have c: "unat (ucast (drop_bit k v) :: byte) + 256 * unat (drop_bit (k + 8) v)
             = unat (drop_bit k v)" for k
    using split8 [of "drop_bit k v"] by (simp add: add.commute)
  have c0: "unat (ucast v :: byte) + 256 * unat (drop_bit 8 v) = unat v"
    using split8 [of v] by simp
  show ?thesis
    unfolding PutUint64_def le_value.simps
    using c [of 8] c [of 16] c [of 24] c [of 32] c [of 40] c [of 48] c0 last8
    by simp
qed

text \<open>
  C1. For every chain configuration, epoch, block hash, block number and view id,
  \<open>ConstructCommitPayload\<close> returns the 8-byte little-endian encoding of the block number
  followed by the block hash when the epoch is before the staking fork, and that same byte
  string followed by the 8-byte little-endian encoding of the view id when the epoch is at
  or after the staking fork. The two 8-byte fields are characterised by their length and by
  the number they denote when read least significant byte first.
\<close>

theorem ConstructCommitPayload_layout:
  "\<exists>nb vb. length nb = 8 \<and> le_value nb = unat blockNum
         \<and> length vb = 8 \<and> le_value vb = unat viewID
         \<and> ConstructCommitPayload chain epoch blockHash blockNum viewID
             = (if IsStaking (Config chain) epoch then nb @ blockHash @ vb
                else nb @ blockHash)"
proof (intro exI conjI)
  show "length (PutUint64 blockNum) = 8" by (rule length_PutUint64)
  show "le_value (PutUint64 blockNum) = unat blockNum" by (rule le_value_PutUint64)
  show "length (PutUint64 viewID) = 8" by (rule length_PutUint64)
  show "le_value (PutUint64 viewID) = unat viewID" by (rule le_value_PutUint64)
  show "ConstructCommitPayload chain epoch blockHash blockNum viewID
          = (if IsStaking (Config chain) epoch
             then PutUint64 blockNum @ blockHash @ PutUint64 viewID
             else PutUint64 blockNum @ blockHash)"
    by (simp add: ConstructCommitPayload_def Let_def)
qed

section \<open>Properties of the pending receipt pool\<close>

lemma key0_bad: "key0 1 2 = ''s-bb''"
  by (simp add: key0_def) (simp add: eval_nat_numeral)

lemma key0_a: "key0 1 5 = ''s-bbbbb''"
  by (simp add: key0_def) (simp add: eval_nat_numeral)

lemma key0_b: "key0 0 3 = ''-bbb''"
  by (simp add: key0_def) (simp add: eval_nat_numeral)

lemma node0_small: "pool_len (pendingCXReceipts node0) < maxCrossTxnSize"
  by (simp add: node0_def pool_len_def maxCrossTxnSize_def fcard_fempty)

lemma add_cx_bad:
  "fmlookup (pendingCXReceipts (AddPendingReceipts env0 node0 cx_bad)) ''s-bb'' = Some cx_bad"
  by (simp add: AddPendingReceipts_def env0_def node0_def cx_bad_def mk_cxp_def Uint64_def
      pool_len_def maxCrossTxnSize_def log_msg_def key0_bad Let_def fcard_fempty)

lemma add_cx_bad_pool:
  "pendingCXReceipts (AddPendingReceipts env0 node0 cx_bad) = fmupd ''s-bb'' cx_bad fmempty"
  by (simp add: AddPendingReceipts_def env0_def node0_def cx_bad_def mk_cxp_def Uint64_def
      pool_len_def maxCrossTxnSize_def log_msg_def key0_bad Let_def fcard_fempty)

lemma key0_length: "length (key0 s n) = unat s + 1 + unat n"
  by (simp add: key0_def)

lemma key0_inj_small:
  assumes "i < 2 ^ 64" and "j < 2 ^ 64" and "key0 1 (of_nat i) = key0 1 (of_nat j)"
  shows "i = j"
proof -
  from assms(3) have "length (key0 1 (of_nat i)) = length (key0 1 (of_nat j))" by simp
  then have "unat (of_nat i :: uint64) = unat (of_nat j :: uint64)"
    by (simp add: key0_length)
  moreover have "unat (of_nat i :: uint64) = i" using assms(1) by (simp add: unat_of_nat)
  moreover have "unat (of_nat j :: uint64) = j" using assms(2) by (simp add: unat_of_nat)
  ultimately show ?thesis by simp
qed

lemma full_pool_keys_distinct:
  "distinct (map (\<lambda>i. key0 1 (of_nat i)) [1..<4097])"
proof -
  have "inj_on (\<lambda>i. key0 1 (of_nat i :: uint64)) (set [1..<4097])"
  proof (rule inj_onI)
    fix i j :: nat
    assume "i \<in> set [1..<4097]" and "j \<in> set [1..<4097]"
      and e: "key0 1 (of_nat i) = key0 1 (of_nat j)"
    then have "i < 2 ^ 64" and "j < 2 ^ 64" by simp_all
    then show "i = j" using e by (rule key0_inj_small)
  qed
  then show ?thesis by (simp add: distinct_map)
qed

lemma fcard_fset_of_list: "distinct xs \<Longrightarrow> fcard (fset_of_list xs) = length xs"
  by (simp add: fcard.rep_eq fset_of_list.rep_eq distinct_card)

lemma full_pool_len: "pool_len full_pool = 4096"
proof -
  have "fmdom full_pool = fset_of_list (map (\<lambda>i. key0 1 (of_nat i)) [1..<4097])"
    unfolding full_pool_def fmdom_fmap_of_list by (simp add: comp_def)
  then show ?thesis
    using fcard_fset_of_list [OF full_pool_keys_distinct] by (simp add: pool_len_def)
qed

lemma full_pool_no_late: "fmlookup full_pool (key0 1 5000) = None"
proof -
  have "key0 1 5000 \<notin> set (map (\<lambda>i. key0 1 (of_nat i)) [1..<4097])"
  proof
    assume "key0 1 5000 \<in> set (map (\<lambda>i. key0 1 (of_nat i)) [1..<4097])"
    then obtain i where i: "i < 4097" and e: "key0 1 (of_nat (5000::nat)) = key0 1 (of_nat i)"
      by auto
    have "(5000::nat) = i"
      by (rule key0_inj_small [OF _ _ e]) (use i in simp_all)
    with i show False by simp
  qed
  then have "key0 1 5000 |\<notin>| fmdom full_pool"
    unfolding full_pool_def fmdom_fmap_of_list by (simp add: comp_def fset_of_list_elem image_iff)
  then show ?thesis by (simp add: fmdom_notD)
qed

lemma add_to_full:
  "AddPendingReceipts env0 full_node cx_late =
     log_msg Info ''Current pending cx-receipts reached size limit'' full_node"
  by (simp add: AddPendingReceipts_def env0_def full_node_def cx_late_def mk_cxp_def Uint64_def
      full_pool_len maxCrossTxnSize_def Let_def)

text \<open>
  C10. \<open>AddPendingReceipts\<close> keeps the pool at no more than \<open>maxCrossTxnSize = 4096\<close>
  entries. A pool that already holds 4096 entries or more is left as it is: the incoming
  proof is dropped. A pool with at most 4096 entries has at most 4096 entries after the
  call. In every case the pool is either unchanged, or it held fewer than 4096 entries and
  gained the incoming proof under its key.
\<close>

theorem AddPendingReceipts_bounded:
  "(maxCrossTxnSize \<le> pool_len (pendingCXReceipts node) \<longrightarrow>
      pendingCXReceipts (AddPendingReceipts env node r) = pendingCXReceipts node)
   \<and> (pool_len (pendingCXReceipts node) \<le> maxCrossTxnSize \<longrightarrow>
      pool_len (pendingCXReceipts (AddPendingReceipts env node r)) \<le> maxCrossTxnSize)
   \<and> (pendingCXReceipts (AddPendingReceipts env node r) = pendingCXReceipts node
      \<or> (pool_len (pendingCXReceipts node) < maxCrossTxnSize
         \<and> pendingCXReceipts (AddPendingReceipts env node r)
             = fmupd (GetPendingCXKey env (hdr_ShardID (cxp_Header r))
                        (Uint64 (Number (cxp_Header r)))) r (pendingCXReceipts node)))"
  by (auto simp: AddPendingReceipts_def log_msg_def Let_def pool_len_def fcard_finsert_if
      split: option.splits)

theorem AddPendingReceipts_bounded_witness:
  "pool_len (pendingCXReceipts full_node) = 4096
   \<and> fmlookup (pendingCXReceipts full_node) (key0 1 5000) = None
   \<and> pendingCXReceipts (AddPendingReceipts env0 full_node cx_late) = pendingCXReceipts full_node
   \<and> pool_len (pendingCXReceipts (AddPendingReceipts env0 full_node cx_late)) \<le> maxCrossTxnSize
   \<and> logged (AddPendingReceipts env0 full_node cx_late)
       = [(Info, ''Current pending cx-receipts reached size limit'')]
   \<and> pool_len (pendingCXReceipts node0) = 0
   \<and> pool_len (pendingCXReceipts (AddPendingReceipts env0 node0 cx_bad)) = 1
   \<and> pool_len (pendingCXReceipts (AddPendingReceipts env0 node0 cx_bad)) \<le> maxCrossTxnSize"
proof -
  have full: "pool_len (pendingCXReceipts full_node) = 4096"
    by (simp add: full_node_def full_pool_len)
  have h1: "maxCrossTxnSize \<le> pool_len (pendingCXReceipts full_node)"
    and h2: "pool_len (pendingCXReceipts full_node) \<le> maxCrossTxnSize"
    by (simp_all add: full maxCrossTxnSize_def)
  have h3: "pool_len (pendingCXReceipts node0) \<le> maxCrossTxnSize"
    using node0_small by simp
  from AddPendingReceipts_bounded [of full_node env0 cx_late] h1 h2
  have "pendingCXReceipts (AddPendingReceipts env0 full_node cx_late) = pendingCXReceipts full_node"
    and "pool_len (pendingCXReceipts (AddPendingReceipts env0 full_node cx_late)) \<le> maxCrossTxnSize"
    by simp_all
  moreover from AddPendingReceipts_bounded [of node0 env0 cx_bad] h3
  have "pool_len (pendingCXReceipts (AddPendingReceipts env0 node0 cx_bad)) \<le> maxCrossTxnSize"
    by simp
  moreover have "logged (AddPendingReceipts env0 full_node cx_late)
       = [(Info, ''Current pending cx-receipts reached size limit'')]"
    unfolding add_to_full by (simp add: log_msg_def full_node_def)
  moreover have "fmlookup (pendingCXReceipts full_node) (key0 1 5000) = None"
    by (simp add: full_node_def full_pool_no_late)
  moreover have "pool_len (pendingCXReceipts node0) = 0"
    by (simp add: node0_def pool_len_def fcard_fempty)
  moreover have "pool_len (pendingCXReceipts (AddPendingReceipts env0 node0 cx_bad)) = 1"
    unfolding add_cx_bad_pool by (simp add: pool_len_def fcard_finsert_if fcard_fempty)
  ultimately show ?thesis using full by simp
qed

text \<open>
  C5, as stated, fails. The node is of shard 2; the proof comes from shard 1 and its receipt
  is for shard 0. \<open>AddPendingReceipts\<close> stores it in the pool.
\<close>

theorem AddPendingReceipts_other_shard_counterexample:
  "ToShardID (hd (Receipts cx_bad)) \<noteq> Consensus_ShardID env0
   \<and> ToShardID (hd (Receipts cx_bad)) \<noteq> Blockchain_ShardID env0
   \<and> fmlookup (pendingCXReceipts node0) ''s-bb'' = None
   \<and> fmlookup (pendingCXReceipts (AddPendingReceipts env0 node0 cx_bad)) ''s-bb'' = Some cx_bad"
  using add_cx_bad by (simp add: cx_bad_def mk_cxp_def env0_def node0_def)

lemma propose_step_valid_subset:
  "set (validReceiptsList (propose_step env c st)) \<subseteq>
     set (validReceiptsList st) \<union>
       (if \<forall>item \<in> set (Receipts c). ToShardID item = Blockchain_ShardID env then {c} else {})"
  by (auto simp: propose_step_def Let_def split: option.splits if_splits)

lemma fold_propose_step_targets:
  "\<forall>p \<in> set (validReceiptsList st).
      \<forall>item \<in> set (Receipts p). ToShardID item = Blockchain_ShardID env
   \<Longrightarrow> \<forall>p \<in> set (validReceiptsList (fold (propose_step env) cs st)).
         \<forall>item \<in> set (Receipts p). ToShardID item = Blockchain_ShardID env"
proof (induction cs arbitrary: st)
  case Nil
  then show ?case by simp
next
  case (Cons c cs)
  have "\<forall>p \<in> set (validReceiptsList (propose_step env c st)).
          \<forall>item \<in> set (Receipts p). ToShardID item = Blockchain_ShardID env"
  proof
    fix p assume "p \<in> set (validReceiptsList (propose_step env c st))"
    with propose_step_valid_subset [of env c st]
    have "p \<in> set (validReceiptsList st) \<or>
          (p = c \<and> (\<forall>item \<in> set (Receipts c). ToShardID item = Blockchain_ShardID env))"
      by (auto split: if_splits)
    with Cons.prems show "\<forall>item \<in> set (Receipts p). ToShardID item = Blockchain_ShardID env"
      by auto
  qed
  from Cons.IH [OF this] show ?case by simp
qed

lemma proposeReceiptsProof_targets:
  "\<forall>p \<in> set (fst (proposeReceiptsProof env nd o1 o2)).
     \<forall>item \<in> set (Receipts p). ToShardID item = Blockchain_ShardID env"
proof (cases "HasCrossTxFields env (Worker_CurrentEpoch env)")
  case False
  then show ?thesis by (simp add: proposeReceiptsProof_def)
next
  case True
  have "\<forall>p \<in> set (validReceiptsList propose_init).
          \<forall>item \<in> set (Receipts p). ToShardID item = Blockchain_ShardID env"
    by (simp add: propose_init_def)
  from fold_propose_step_targets [OF this] True show ?thesis
    by (simp add: proposeReceiptsProof_def Let_def)
qed

lemma propose_step_drops_other_shard:
  assumes "\<exists>item \<in> set (Receipts c). ToShardID item \<noteq> Blockchain_ShardID env"
  shows "validReceiptsList (propose_step env c st) = validReceiptsList st"
    and "filter is_Error (propose_log (propose_step env c st)) = filter is_Error (propose_log st)"
  using assms by (auto simp: propose_step_def Let_def is_Error_def)

lemma AddPendingReceipts_accepts:
  assumes "\<not> ContainsEmptyField env r"
    and "case ValidateCXReceiptsProof env r of None \<Rightarrow> True
         | Some err \<Rightarrow> strings_Contains err (MsgNoShardStateFromDB env)"
    and "Consensus_ShardID env \<noteq> hdr_ShardID (cxp_Header r)"
    and "Uint64 (Number (cxp_Header r)) \<noteq> 0"
    and "AcceptsCrossTx env (Epoch (cxp_Header r))"
    and "pool_len (pendingCXReceipts node) < maxCrossTxnSize"
    and "fmlookup (pendingCXReceipts node)
           (GetPendingCXKey env (hdr_ShardID (cxp_Header r)) (Uint64 (Number (cxp_Header r))))
         = None"
  shows "AddPendingReceipts env node r =
           log_msg Info ''Got ONE more receipt message''
             (node\<lparr>pendingCXReceipts :=
                fmupd (GetPendingCXKey env (hdr_ShardID (cxp_Header r))
                         (Uint64 (Number (cxp_Header r)))) r (pendingCXReceipts node)\<rparr>)"
  using assms by (auto simp: AddPendingReceipts_def Let_def split: option.splits)

text \<open>
  C5, amended. \<open>AddPendingReceipts\<close> does not look at the \<open>ToShardID\<close> of the receipts:
  a proof that passes its checks (no empty field; the validator accepts it or only misses
  the shard state; it comes from another shard; its block number is not 0 and its epoch
  accepts cross-shard transactions; the pool holds fewer than 4096 entries and has no entry
  under its key) is stored under its key, with one Info entry in the log, whatever the
  destination of its receipts. A proof with a receipt for another shard is rejected later,
  when receipts are proposed: the loop iteration that meets it leaves the list of valid
  proofs as it was and logs no error, and every proof that \<open>proposeReceiptsProof\<close> returns
  has all its receipts addressed to this shard.
\<close>

theorem AddPendingReceipts_target_checked_at_proposal:
  assumes "\<not> ContainsEmptyField env r"
    and "case ValidateCXReceiptsProof env r of None \<Rightarrow> True
         | Some err \<Rightarrow> strings_Contains err (MsgNoShardStateFromDB env)"
    and "Consensus_ShardID env \<noteq> hdr_ShardID (cxp_Header r)"
    and "Uint64 (Number (cxp_Header r)) \<noteq> 0"
    and "AcceptsCrossTx env (Epoch (cxp_Header r))"
    and "pool_len (pendingCXReceipts node) < maxCrossTxnSize"
    and "fmlookup (pendingCXReceipts node)
           (GetPendingCXKey env (hdr_ShardID (cxp_Header r)) (Uint64 (Number (cxp_Header r))))
         = None"
  shows "AddPendingReceipts env node r =
           log_msg Info ''Got ONE more receipt message''
             (node\<lparr>pendingCXReceipts :=
                fmupd (GetPendingCXKey env (hdr_ShardID (cxp_Header r))
                         (Uint64 (Number (cxp_Header r)))) r (pendingCXReceipts node)\<rparr>)
         \<and> ((\<exists>item \<in> set (Receipts r). ToShardID item \<noteq> Blockchain_ShardID env) \<longrightarrow>
              validReceiptsList (propose_step env r st) = validReceiptsList st
              \<and> filter is_Error (propose_log (propose_step env r st))
                  = filter is_Error (propose_log st))
         \<and> (\<forall>p \<in> set (fst (proposeReceiptsProof env nd o1 o2)).
               \<forall>item \<in> set (Receipts p). ToShardID item = Blockchain_ShardID env)"
proof (intro conjI impI)
  show "AddPendingReceipts env node r =
           log_msg Info ''Got ONE more receipt message''
             (node\<lparr>pendingCXReceipts :=
                fmupd (GetPendingCXKey env (hdr_ShardID (cxp_Header r))
                         (Uint64 (Number (cxp_Header r)))) r (pendingCXReceipts node)\<rparr>)"
    using assms by (rule AddPendingReceipts_accepts)
next
  assume "\<exists>item \<in> set (Receipts r). ToShardID item \<noteq> Blockchain_ShardID env"
  then show "validReceiptsList (propose_step env r st) = validReceiptsList st"
    by (rule propose_step_drops_other_shard)
next
  assume "\<exists>item \<in> set (Receipts r). ToShardID item \<noteq> Blockchain_ShardID env"
  then show "filter is_Error (propose_log (propose_step env r st))
               = filter is_Error (propose_log st)"
    by (rule propose_step_drops_other_shard)
next
  show "\<forall>p \<in> set (fst (proposeReceiptsProof env nd o1 o2)).
          \<forall>item \<in> set (Receipts p). ToShardID item = Blockchain_ShardID env"
    by (rule proposeReceiptsProof_targets)
qed

theorem AddPendingReceipts_target_checked_at_proposal_witness:
  "pendingCXReceipts (AddPendingReceipts env0 node0 cx_bad) = fmupd ''s-bb'' cx_bad fmempty
   \<and> logged (AddPendingReceipts env0 node0 cx_bad) = [(Info, ''Got ONE more receipt message'')]
   \<and> validReceiptsList (propose_step env0 cx_bad propose_init) = []
   \<and> filter is_Error (propose_log (propose_step env0 cx_bad propose_init)) = []"
proof -
  have k: "GetPendingCXKey env0 (hdr_ShardID (cxp_Header cx_bad))
             (Uint64 (Number (cxp_Header cx_bad))) = ''s-bb''"
    by (simp add: env0_def cx_bad_def mk_cxp_def Uint64_def key0_bad)
  have a1: "\<not> ContainsEmptyField env0 cx_bad" by (simp add: env0_def)
  have a2: "case ValidateCXReceiptsProof env0 cx_bad of None \<Rightarrow> True
         | Some err \<Rightarrow> strings_Contains err (MsgNoShardStateFromDB env0)"
    by (simp add: env0_def)
  have a3: "Consensus_ShardID env0 \<noteq> hdr_ShardID (cxp_Header cx_bad)"
    by (simp add: env0_def cx_bad_def mk_cxp_def)
  have a4: "Uint64 (Number (cxp_Header cx_bad)) \<noteq> 0"
    by (simp add: cx_bad_def mk_cxp_def Uint64_def)
  have a5: "AcceptsCrossTx env0 (Epoch (cxp_Header cx_bad))" by (simp add: env0_def)
  have a7: "fmlookup (pendingCXReceipts node0)
           (GetPendingCXKey env0 (hdr_ShardID (cxp_Header cx_bad))
              (Uint64 (Number (cxp_Header cx_bad)))) = None"
    by (simp add: node0_def)
  have b: "\<exists>item \<in> set (Receipts cx_bad). ToShardID item \<noteq> Blockchain_ShardID env0"
    by (simp add: env0_def cx_bad_def mk_cxp_def)
  from AddPendingReceipts_target_checked_at_proposal
         [OF a1 a2 a3 a4 a5 node0_small a7, of propose_init node0 "[]" "[]"] b
  show ?thesis
    by (simp add: k log_msg_def node0_def propose_init_def)
qed

section \<open>Properties of the receipt proposal\<close>

lemma node2_pool:
  "pendingCXReceipts node2 = fmupd ''s-bbbbb'' cx_a (fmupd ''-bbb'' cx_b fmempty)"
  by (simp add: node2_def AddPendingReceipts_def env0_def node0_def cx_a_def cx_b_def mk_cxp_def
      Uint64_def pool_len_def maxCrossTxnSize_def log_msg_def key0_a key0_b Let_def
      fcard_fempty fcard_finsert_if)

lemma node2_range:
  "range_values (pendingCXReceipts node2) [''s-bbbbb'', ''-bbb''] = [cx_a, cx_b]"
  by (simp add: node2_pool range_values_def List.map_filter_simps)

lemma propose_two:
  "validReceiptsList (propose_step env0 cx_b (propose_step env0 cx_a propose_init))
     = [cx_a, cx_b]"
  by (simp add: env0_def propose_step_def propose_init_def IncomingReceiptsLimit_def Let_def
      cx_a_def cx_b_def mk_cxp_def)

text \<open>
  C4. The pool of a node of shard 2 holds two valid, unspent proofs, both for shard 2: one
  from block 5 of shard 1 and one from block 3 of shard 0, put there by
  \<open>AddPendingReceipts\<close>. When the range over the map visits the proof of shard 1 first,
  \<open>proposeReceiptsProof\<close> returns the proof of shard 1 before the proof of shard 0: the
  loop ranges over the map, not over the slice that was sorted.
\<close>

theorem proposeReceiptsProof_unordered:
  "range_order_ok (pendingCXReceipts node2) [''s-bbbbb'', ''-bbb'']
   \<and> fst (proposeReceiptsProof env0 node2 [''s-bbbbb'', ''-bbb''] [''s-bbbbb'', ''-bbb''])
       = [cx_a, cx_b]
   \<and> mp_ShardID (MerkleProof cx_a) = 1 \<and> mp_ShardID (MerkleProof cx_b) = 0"
proof -
  have "range_order_ok (pendingCXReceipts node2) [''s-bbbbb'', ''-bbb'']"
    by (simp add: node2_pool range_order_ok_def)
  moreover have "HasCrossTxFields env0 (Worker_CurrentEpoch env0)"
    by (simp add: env0_def)
  then have "fst (proposeReceiptsProof env0 node2 [''s-bbbbb'', ''-bbb''] [''s-bbbbb'', ''-bbb''])
       = [cx_a, cx_b]"
    by (simp add: proposeReceiptsProof_def Let_def node2_range propose_two)
  moreover have "mp_ShardID (MerkleProof cx_a) = 1 \<and> mp_ShardID (MerkleProof cx_b) = 0"
    by (simp add: cx_a_def cx_b_def mk_cxp_def)
  ultimately show ?thesis by simp
qed

section \<open>Properties of the block and header handlers\<close>

lemma syncRespBlockHandler_cases:
  "(let h = (case GetSyncBlock msg of None \<Rightarrow> 0 | Some x \<Rightarrow> sb_Height x);
        chain = (if (case GetSyncBlock msg of None \<Rightarrow> 0 | Some x \<Rightarrow> sb_ShardId x)
                      = BeaconChainShardID node
                 then Beaconchain node else Blockchain node);
        latest = Uint64 (Number (blk_Header (CurrentBlock chain)))
    in ((\<exists>d l. syncRespBlockHandler node msg = Inl (errDoNotHaveDesiredBlockNum d l))
          \<longleftrightarrow> h > latest)
       \<and> (h > latest \<longrightarrow>
            syncRespBlockHandler node msg = Inl (errDoNotHaveDesiredBlockNum h latest))
       \<and> (\<forall>data. \<not> h > latest \<longrightarrow>
            rlp_EncodeBlocks node [GetBlockByNumber chain h] = Inr data \<longrightarrow>
            syncRespBlockHandler node msg =
              Inr \<lparr>msg_ServiceType = CLIENT_SUPPORT, msg_Type = SYNC_RESPONSE_BLOCK,
                   msg_Request = Message_SyncBlock
                     \<lparr>sb_Height = 0, sb_ShardId = 0, BlockRlp = data\<rparr>\<rparr>)
       \<and> (\<forall>err. \<not> h > latest \<longrightarrow>
            rlp_EncodeBlocks node [GetBlockByNumber chain h] = Inl err \<longrightarrow>
            syncRespBlockHandler node msg = Inl (rlp_error err)))"
  by (auto simp: syncRespBlockHandler_def Let_def split: sum.splits)

lemma syncRespBlockHeaderHandler_cases:
  "(let h = (case GetSyncBlockHeader msg of None \<Rightarrow> 0 | Some x \<Rightarrow> sh_Height x);
        chain = (if (case GetSyncBlockHeader msg of None \<Rightarrow> 0 | Some x \<Rightarrow> sh_ShardId x)
                      = BeaconChainShardID node
                 then Beaconchain node else Blockchain node);
        latest = Uint64 (Number (CurrentHeader chain))
    in ((\<exists>d l. syncRespBlockHeaderHandler node msg = Inl (errDoNotHaveDesiredBlockNum d l))
          \<longleftrightarrow> h > latest)
       \<and> (h > latest \<longrightarrow>
            syncRespBlockHeaderHandler node msg = Inl (errDoNotHaveDesiredBlockNum h latest))
       \<and> (\<forall>data. \<not> h > latest \<longrightarrow>
            rlp_EncodeHeaders node [GetHeaderByNumber chain h] = Inr data \<longrightarrow>
            syncRespBlockHeaderHandler node msg =
              Inr \<lparr>msg_ServiceType = CLIENT_SUPPORT, msg_Type = SYNC_RESPONSE_BLOCK_HEADER,
                   msg_Request = Message_SyncBlockHeader
                     \<lparr>sh_Height = 0, sh_ShardId = 0, HeaderRlp = data\<rparr>\<rparr>)
       \<and> (\<forall>err. \<not> h > latest \<longrightarrow>
            rlp_EncodeHeaders node [GetHeaderByNumber chain h] = Inl err \<longrightarrow>
            syncRespBlockHeaderHandler node msg = Inl (rlp_error err)))"
  by (auto simp: syncRespBlockHeaderHandler_def Let_def split: sum.splits)

text \<open>
  C6, as stated, fails. The head of the chain is block 10 and the request is for height 7,
  which is not greater; the encoder fails, and the handlers return its error instead of a
  response.
\<close>

theorem sync_handlers_encoder_counterexample:
  "Uint64 (Number (blk_Header (CurrentBlock (Blockchain sync_node_failing)))) = 10
   \<and> Uint64 (Number (CurrentHeader (Blockchain sync_node_failing))) = 10
   \<and> syncRespBlockHandler sync_node_failing (req_block 7)
       = Inl (rlp_error ''rlp: encoding failed'')
   \<and> syncRespBlockHeaderHandler sync_node_failing (req_header 7)
       = Inl (rlp_error ''rlp: encoding failed'')"
  by (simp add: syncRespBlockHandler_def syncRespBlockHeaderHandler_def sync_node_failing_def
      sync_node0_def req_block_def req_header_def chain10_def hdr_at_def GetSyncBlock_def
      GetSyncBlockHeader_def Uint64_def Let_def)

text \<open>
  C6, amended. The handler of a block request (and of a header request) returns the error
  ``do not have block num'' exactly when the requested height is greater than the number of
  the current block (header) of the requested chain, the beacon chain when the request
  names the beacon shard and the chain of the node's shard otherwise. When the height is
  not greater, the handler encodes the block (header) stored at that height: when
  \<^verbatim>\<open>rlp.EncodeToBytes\<close> gives an encoding, it returns the response message that
  carries the encoding, and no error; when the encoder fails, it returns the error of the
  encoder and no response.
\<close>

theorem sync_handlers_serve_or_refuse:
  "(let h = (case GetSyncBlock msg of None \<Rightarrow> 0 | Some x \<Rightarrow> sb_Height x);
        chain = (if (case GetSyncBlock msg of None \<Rightarrow> 0 | Some x \<Rightarrow> sb_ShardId x)
                      = BeaconChainShardID node
                 then Beaconchain node else Blockchain node);
        latest = Uint64 (Number (blk_Header (CurrentBlock chain)))
    in ((\<exists>d l. syncRespBlockHandler node msg = Inl (errDoNotHaveDesiredBlockNum d l))
          \<longleftrightarrow> h > latest)
       \<and> (h > latest \<longrightarrow>
            syncRespBlockHandler node msg = Inl (errDoNotHaveDesiredBlockNum h latest))
       \<and> (\<forall>data. \<not> h > latest \<longrightarrow>
            rlp_EncodeBlocks node [GetBlockByNumber chain h] = Inr data \<longrightarrow>
            syncRespBlockHandler node msg =
              Inr \<lparr>msg_ServiceType = CLIENT_SUPPORT, msg_Type = SYNC_RESPONSE_BLOCK,
                   msg_Request = Message_SyncBlock
                     \<lparr>sb_Height = 0, sb_ShardId = 0, BlockRlp = data\<rparr>\<rparr>)
       \<and> (\<forall>err. \<not> h > latest \<longrightarrow>
            rlp_EncodeBlocks node [GetBlockByNumber chain h] = Inl err \<longrightarrow>
            syncRespBlockHandler node msg = Inl (rlp_error err)))
   \<and>
   (let h = (case GetSyncBlockHeader msg' of None \<Rightarrow> 0 | Some x \<Rightarrow> sh_Height x);
        chain = (if (case GetSyncBlockHeader msg' of None \<Rightarrow> 0 | Some x \<Rightarrow> sh_ShardId x)
                      = BeaconChainShardID node
                 then Beaconchain node else Blockchain node);
        latest = Uint64 (Number (CurrentHeader chain))
    in ((\<exists>d l. syncRespBlockHeaderHandler node msg' = Inl (errDoNotHaveDesiredBlockNum d l))
          \<longleftrightarrow> h > latest)
       \<and> (h > latest \<longrightarrow>
            syncRespBlockHeaderHandler node msg' = Inl (errDoNotHaveDesiredBlockNum h latest))
       \<and> (\<forall>data. \<not> h > latest \<longrightarrow>
            rlp_EncodeHeaders node [GetHeaderByNumber chain h] = Inr data \<longrightarrow>
            syncRespBlockHeaderHandler node msg' =
              Inr \<lparr>msg_ServiceType = CLIENT_SUPPORT, msg_Type = SYNC_RESPONSE_BLOCK_HEADER,
                   msg_Request = Message_SyncBlockHeader
                     \<lparr>sh_Height = 0, sh_ShardId = 0, HeaderRlp = data\<rparr>\<rparr>)
       \<and> (\<forall>err. \<not> h > latest \<longrightarrow>
            rlp_EncodeHeaders node [GetHeaderByNumber chain h] = Inl err \<longrightarrow>
            syncRespBlockHeaderHandler node msg' = Inl (rlp_error err)))"
  using syncRespBlockHandler_cases [of msg node] syncRespBlockHeaderHandler_cases [of msg' node]
  by blast

theorem sync_handlers_serve_or_refuse_witness:
  "syncRespBlockHandler sync_node0 (req_block 11) = Inl (errDoNotHaveDesiredBlockNum 11 10)
   \<and> syncRespBlockHeaderHandler sync_node0 (req_header 11)
       = Inl (errDoNotHaveDesiredBlockNum 11 10)
   \<and> syncRespBlockHandler sync_node0 (req_block 7)
       = Inr \<lparr>msg_ServiceType = CLIENT_SUPPORT, msg_Type = SYNC_RESPONSE_BLOCK,
              msg_Request = Message_SyncBlock \<lparr>sb_Height = 0, sb_ShardId = 0, BlockRlp = [7]\<rparr>\<rparr>
   \<and> syncRespBlockHeaderHandler sync_node0 (req_header 7)
       = Inr \<lparr>msg_ServiceType = CLIENT_SUPPORT, msg_Type = SYNC_RESPONSE_BLOCK_HEADER,
              msg_Request = Message_SyncBlockHeader
                \<lparr>sh_Height = 0, sh_ShardId = 0, HeaderRlp = [7]\<rparr>\<rparr>
   \<and> syncRespBlockHandler sync_node_failing (req_block 10)
       = Inl (rlp_error ''rlp: encoding failed'')
   \<and> syncRespBlockHeaderHandler sync_node_failing (req_header 10)
       = Inl (rlp_error ''rlp: encoding failed'')"
  using sync_handlers_serve_or_refuse [of "req_block 11" sync_node0 "req_header 11"]
    sync_handlers_serve_or_refuse [of "req_block 7" sync_node0 "req_header 7"]
    sync_handlers_serve_or_refuse [of "req_block 10" sync_node_failing "req_header 10"]
  by (simp add: Let_def sync_node0_def sync_node_failing_def req_block_def req_header_def
      chain10_def hdr_at_def GetSyncBlock_def GetSyncBlockHeader_def Uint64_def)

section \<open>Properties of the most common hash\<close>

lemma set_insert_stable: "set (insert_stable lt x ys) = insert x (set ys)"
  by (induction ys) auto

lemma set_SliceStable: "set (SliceStable lt xs) = set xs"
  by (induction xs) (simp_all add: SliceStable_def set_insert_stable)

lemma sorted_insert_stable:
  "by_count_desc ys \<Longrightarrow> by_count_desc (insert_stable more_peers x ys)"
  by (induction ys) (auto simp: by_count_desc_def more_peers_def set_insert_stable)

lemma sorted_SliceStable: "by_count_desc (SliceStable more_peers xs)"
proof (induction xs)
  case Nil
  then show ?case by (simp add: SliceStable_def by_count_desc_def)
next
  case (Cons x xs)
  then show ?case
    using sorted_insert_stable [of "SliceStable more_peers xs" x]
    by (simp add: SliceStable_def)
qed

lemma distinct_map_insert_stable:
  "distinct (map f (insert_stable lt x ys)) \<longleftrightarrow> f x \<notin> f ` set ys \<and> distinct (map f ys)"
  by (induction ys) (auto simp: set_insert_stable)

lemma distinct_map_SliceStable:
  "distinct (map f (SliceStable lt xs)) \<longleftrightarrow> distinct (map f xs)"
proof (induction xs)
  case Nil
  then show ?case by (simp add: SliceStable_def)
next
  case (Cons x xs)
  have "SliceStable lt (x # xs) = insert_stable lt x (SliceStable lt xs)"
    by (simp add: SliceStable_def)
  then show ?case
    using Cons.IH by (simp add: distinct_map_insert_stable set_SliceStable)
qed

lemma hash_with_hash: "hash \<circ> with_hash = fst"
  by (auto simp: fun_eq_iff with_hash_def)

lemma fold_count_step_fst:
  "fst (fold count_step es (b, s)) =
     fold (\<lambda>e cs. add_peer cs (beaconHash_of (snd e)) (fst e)) es b"
  by (induction es arbitrary: b s) (auto simp: count_step_def split: prod.splits)

lemma fold_count_step_snd:
  "snd (fold count_step es (b, s)) =
     fold (\<lambda>e cs. add_peer cs (shardHash_of (snd e)) (fst e)) es s"
  by (induction es arbitrary: b s) (auto simp: count_step_def split: prod.splits)

lemma lookup_fold_add_peer:
  "fmlookup (fold (\<lambda>e cs. add_peer cs (f (snd e)) (fst e)) es cs) h =
     (if peers_of f h es = [] then fmlookup cs h
      else Some ((case fmlookup cs h of None \<Rightarrow> zero_hashCount | Some c \<Rightarrow> c)
                  \<lparr>peersWithIt := peersWithIt (case fmlookup cs h of None \<Rightarrow> zero_hashCount | Some c \<Rightarrow> c)
                     @ peers_of f h es\<rparr>))"
proof (induction es arbitrary: cs)
  case Nil
  then show ?case by (simp add: peers_of_def)
next
  case (Cons e es)
  show ?case
    by (simp add: Cons.IH) (auto simp: peers_of_def add_peer_def Let_def split: option.splits)
qed

lemma lookup_group:
  "fmlookup (fold (\<lambda>e cs. add_peer cs (f (snd e)) (fst e)) es fmempty) h =
     (if peers_of f h es = [] then None
      else Some \<lparr>hash = replicate 32 0, peersWithIt = peers_of f h es\<rparr>)"
  by (simp add: lookup_fold_add_peer zero_hashCount_def)

lemma range_entries_set:
  "range_order_ok m order \<Longrightarrow> set (range_entries m order) = {(k, v). fmlookup m k = Some v}"
proof -
  assume ok: "range_order_ok m order"
  then have dom: "\<And>k. k \<in> set order \<longleftrightarrow> fmlookup m k \<noteq> None"
    by (metis range_order_ok_def fset_of_list.rep_eq fmlookup_dom_iff not_Some_eq)
  show ?thesis
    by (force simp: range_entries_def List.map_filter_def dom image_iff)
qed

lemma range_entries_fst:
  "map fst (range_entries m order) = filter (\<lambda>k. fmlookup m k \<noteq> None) order"
  by (induction order) (auto simp: range_entries_def List.map_filter_simps split: option.splits)

lemma range_entries_distinct:
  "range_order_ok m order \<Longrightarrow> distinct (map fst (range_entries m order))"
  by (simp add: range_entries_fst range_order_ok_def)

lemma peers_of_set:
  "range_order_ok collect orderC \<Longrightarrow>
   set (peers_of f h (range_entries collect orderC)) = reporters collect f h"
  by (auto simp: peers_of_def reporters_def range_entries_set image_iff)

lemma peers_of_distinct:
  "distinct (map fst es) \<Longrightarrow> distinct (peers_of f h es)"
  by (simp add: peers_of_def distinct_map_filter)

lemma peers_of_card:
  assumes "range_order_ok collect orderC"
  shows "length (peers_of f h (range_entries collect orderC)) = card (reporters collect f h)"
proof -
  have "distinct (peers_of f h (range_entries collect orderC))"
    using assms by (simp add: peers_of_distinct range_entries_distinct)
  then show ?thesis
    using peers_of_set [OF assms, of f h] by (metis distinct_card)
qed


lemma distinct_hashes:
  "range_order_ok counters order \<Longrightarrow>
   distinct (map hash (SliceStable more_peers (map with_hash (range_entries counters order))))"
  by (simp add: distinct_map_SliceStable hash_with_hash range_entries_distinct)

lemma hd_by_count_desc:
  "by_count_desc r \<Longrightarrow> y \<in> set r \<Longrightarrow> length (peersWithIt y) \<le> length (peersWithIt (hd r))"
  by (cases r) (auto simp: by_count_desc_def)

lemma fmempty_lookup_ex: "m \<noteq> fmempty \<Longrightarrow> \<exists>k v. fmlookup m k = Some v"
  by (metis fmap_ext fmempty_lookup not_Some_eq)

lemma grouped_sorted:
  assumes okC: "range_order_ok collect orderC"
    and ne: "collect \<noteq> fmempty"
    and cdef: "counters = fold (\<lambda>e cs. add_peer cs (f (snd e)) (fst e))
                            (range_entries collect orderC) fmempty"
    and okO: "range_order_ok counters order"
    and rdef: "r = SliceStable more_peers (map with_hash (range_entries counters order))"
  shows "by_count_desc r"
    and "\<forall>hc \<in> set r. set (peersWithIt hc) = reporters collect f (hash hc)
                      \<and> distinct (peersWithIt hc)"
    and "r \<noteq> []"
    and "\<forall>h. card (reporters collect f h) \<le> card (reporters collect f (hash (hd r)))"
    and "\<forall>h. reporters collect f h \<noteq> {} \<longrightarrow> (\<exists>hc \<in> set r. hash hc = h)"
    and "distinct (map hash r)"
proof -
  let ?es = "range_entries collect orderC"
  have look: "fmlookup counters h =
        (if peers_of f h ?es = [] then None
         else Some \<lparr>hash = replicate 32 0, peersWithIt = peers_of f h ?es\<rparr>)" for h
    unfolding cdef by (rule lookup_group)
  have setr: "set r = {\<lparr>hash = h, peersWithIt = peers_of f h ?es\<rparr> | h. peers_of f h ?es \<noteq> []}"
  proof -
    have "set r = with_hash ` set (range_entries counters order)"
      by (simp add: rdef set_SliceStable)
    also have "\<dots> = with_hash ` {(h, v). fmlookup counters h = Some v}"
      by (simp add: range_entries_set [OF okO])
    also have "\<dots> = {\<lparr>hash = h, peersWithIt = peers_of f h ?es\<rparr> | h. peers_of f h ?es \<noteq> []}"
      by (auto simp: look with_hash_def image_iff split: if_splits)
    finally show ?thesis .
  qed
  show srt: "by_count_desc r"
    unfolding rdef by (rule sorted_SliceStable)
  show grp: "\<forall>hc \<in> set r. set (peersWithIt hc) = reporters collect f (hash hc)
                      \<and> distinct (peersWithIt hc)"
    using peers_of_set [OF okC, of f] peers_of_distinct [OF range_entries_distinct [OF okC], of f]
    by (auto simp: setr)
  have present: "\<exists>hc \<in> set r. hash hc = h \<and> length (peersWithIt hc) = card (reporters collect f h)"
    if "reporters collect f h \<noteq> {}" for h
  proof -
    from that peers_of_set [OF okC, of f h] have "peers_of f h ?es \<noteq> []" by auto
    then have "\<lparr>hash = h, peersWithIt = peers_of f h ?es\<rparr> \<in> set r"
      by (auto simp: setr)
    with peers_of_card [OF okC, of f h] show ?thesis by force
  qed
  obtain p c where pc: "fmlookup collect p = Some c"
    using fmempty_lookup_ex [OF ne] by blast
  then have "reporters collect f (f c) \<noteq> {}"
    by (auto simp: reporters_def)
  from present [OF this] show nonempty: "r \<noteq> []" by auto
  have hd_in: "hd r \<in> set r" using nonempty by simp
  have hd_len: "length (peersWithIt (hd r)) = card (reporters collect f (hash (hd r)))"
  proof -
    from grp hd_in have "set (peersWithIt (hd r)) = reporters collect f (hash (hd r))"
      and "distinct (peersWithIt (hd r))" by auto
    then show ?thesis by (metis distinct_card)
  qed
  show "\<forall>h. card (reporters collect f h) \<le> card (reporters collect f (hash (hd r)))"
  proof
    fix h
    show "card (reporters collect f h) \<le> card (reporters collect f (hash (hd r)))"
    proof (cases "reporters collect f h = {}")
      case True
      then show ?thesis by simp
    next
      case False
      from present [OF this] obtain hc where "hc \<in> set r"
        and "length (peersWithIt hc) = card (reporters collect f h)" by auto
      with hd_by_count_desc [OF srt, of hc] hd_len show ?thesis by simp
    qed
  qed
  show "\<forall>h. reporters collect f h \<noteq> {} \<longrightarrow> (\<exists>hc \<in> set r. hash hc = h)"
    using present by blast
  show "distinct (map hash r)"
    unfolding rdef using okO by (rule distinct_hashes)
qed

text \<open>
  C7. For a non-empty map of responses, whatever the orders in which the three ranges visit
  their maps, \<open>commonHash\<close> returns two lists sorted in descending order of the number of
  peers. Every entry of the shard list holds, without repetition, exactly the peers whose
  response has the shard hash of the entry, and every entry of the beacon list exactly the
  peers whose response has the beacon hash of the entry; every shard hash and every beacon
  hash that some peer reports has an entry in its list, and no hash has two: the responses
  are grouped by shard hash and by beacon hash. Both lists are non-empty, and the hash of the first entry of each
  list is reported by at least as many peers as any other hash.
\<close>

theorem commonHash_sorted_groups:
  assumes "collect \<noteq> fmempty"
    and "range_order_ok collect orderC"
    and "range_order_ok (fst (commonHash_counters collect orderC)) orderB"
    and "range_order_ok (snd (commonHash_counters collect orderC)) orderS"
  shows "(let r = commonHash collect orderC orderB orderS in
          by_count_desc (shard r) \<and> by_count_desc (beacon r)
          \<and> (\<forall>hc \<in> set (shard r).
                set (peersWithIt hc) = reporters collect shardHash_of (hash hc)
                \<and> distinct (peersWithIt hc))
          \<and> (\<forall>hc \<in> set (beacon r).
                set (peersWithIt hc) = reporters collect beaconHash_of (hash hc)
                \<and> distinct (peersWithIt hc))
          \<and> distinct (map hash (shard r)) \<and> distinct (map hash (beacon r))
          \<and> shard r \<noteq> [] \<and> beacon r \<noteq> []
          \<and> (\<forall>h. card (reporters collect shardHash_of h)
                    \<le> card (reporters collect shardHash_of (hash (hd (shard r)))))
          \<and> (\<forall>h. card (reporters collect beaconHash_of h)
                    \<le> card (reporters collect beaconHash_of (hash (hd (beacon r)))))
          \<and> (\<forall>h. reporters collect shardHash_of h \<noteq> {} \<longrightarrow>
                 (\<exists>hc \<in> set (shard r). hash hc = h))
          \<and> (\<forall>h. reporters collect beaconHash_of h \<noteq> {} \<longrightarrow>
                 (\<exists>hc \<in> set (beacon r). hash hc = h)))"
proof -
  let ?es = "range_entries collect orderC"
  let ?cs = "commonHash_counters collect orderC"
  have b: "fst ?cs = fold (\<lambda>e cs. add_peer cs (beaconHash_of (snd e)) (fst e)) ?es fmempty"
    by (simp add: commonHash_counters_def fold_count_step_fst)
  have s: "snd ?cs = fold (\<lambda>e cs. add_peer cs (shardHash_of (snd e)) (fst e)) ?es fmempty"
    by (simp add: commonHash_counters_def fold_count_step_snd)
  have rs: "shard (commonHash collect orderC orderB orderS)
              = SliceStable more_peers (map with_hash (range_entries (snd ?cs) orderS))"
    by (simp add: commonHash_def Let_def split: prod.splits)
  have rb: "beacon (commonHash collect orderC orderB orderS)
              = SliceStable more_peers (map with_hash (range_entries (fst ?cs) orderB))"
    by (simp add: commonHash_def Let_def split: prod.splits)
  note S = grouped_sorted [OF assms(2) assms(1) s assms(4) rs]
  note B = grouped_sorted [OF assms(2) assms(1) b assms(3) rb]
  show ?thesis
    unfolding Let_def
    using S(1) S(2) S(3) S(4) S(5) S(6) B(1) B(2) B(3) B(4) B(5) B(6) by blast
qed

lemma hA_neq_hB: "hA \<noteq> hB" "hB \<noteq> hA"
  by (simp_all add: hA_def hB_def BytesToHash_def)

lemma hashes_height_msg:
  "shardHash_of (height_msg bh sh) = BytesToHash sh"
  "beaconHash_of (height_msg bh sh) = BytesToHash bh"
  by (simp_all add: shardHash_of_def beaconHash_of_def height_msg_def GetSyncBlockHeight_def
      GetShardHash_def GetBeaconHash_def)

lemma collect3_entries:
  "range_entries collect3 [''p2'', ''p1'', ''p3'']
     = [(''p2'', height_msg [1] [2]), (''p1'', height_msg [1] [1]), (''p3'', height_msg [1] [1])]"
  by (simp add: range_entries_def collect3_def List.map_filter_simps)

lemma collect3_counters:
  "commonHash_counters collect3 [''p2'', ''p1'', ''p3''] =
     (fmupd hA \<lparr>hash = replicate 32 0, peersWithIt = [''p2'', ''p1'', ''p3'']\<rparr> fmempty,
      fmupd hA \<lparr>hash = replicate 32 0, peersWithIt = [''p1'', ''p3'']\<rparr>
        (fmupd hB \<lparr>hash = replicate 32 0, peersWithIt = [''p2'']\<rparr> fmempty))"
  by (simp add: commonHash_counters_def collect3_entries count_step_def hashes_height_msg
      add_peer_def zero_hashCount_def hA_def [symmetric] hB_def [symmetric] hA_neq_hB Let_def)

lemma collect3_result:
  "commonHash collect3 [''p2'', ''p1'', ''p3''] [hA] [hB, hA] =
     \<lparr>beacon = [\<lparr>hash = hA, peersWithIt = [''p2'', ''p1'', ''p3'']\<rparr>],
      shard = [\<lparr>hash = hA, peersWithIt = [''p1'', ''p3'']\<rparr>, \<lparr>hash = hB, peersWithIt = [''p2'']\<rparr>]\<rparr>"
  by (simp add: commonHash_def collect3_counters range_entries_def List.map_filter_simps
      with_hash_def SliceStable_def more_peers_def hA_neq_hB)

theorem commonHash_sorted_groups_witness:
  "hash (hd (shard (commonHash collect3 [''p2'', ''p1'', ''p3''] [hA] [hB, hA]))) = hA
   \<and> card (reporters collect3 shardHash_of hB) \<le> card (reporters collect3 shardHash_of hA)
   \<and> map (length \<circ> peersWithIt)
         (shard (commonHash collect3 [''p2'', ''p1'', ''p3''] [hA] [hB, hA])) = [2, 1]
   \<and> map hash (shard (commonHash collect3 [''p2'', ''p1'', ''p3''] [hA] [hB, hA])) = [hA, hB]
   \<and> map hash (beacon (commonHash collect3 [''p2'', ''p1'', ''p3''] [hA] [hB, hA])) = [hA]"
proof -
  have a1: "collect3 \<noteq> fmempty"
    by (metis collect3_def fmupd_lookup fmempty_lookup option.distinct(1))
  have a2: "range_order_ok collect3 [''p2'', ''p1'', ''p3'']"
    by (auto simp: range_order_ok_def collect3_def)
  have a3: "range_order_ok (fst (commonHash_counters collect3 [''p2'', ''p1'', ''p3''])) [hA]"
    by (simp add: collect3_counters range_order_ok_def)
  have a4: "range_order_ok (snd (commonHash_counters collect3 [''p2'', ''p1'', ''p3''])) [hB, hA]"
    by (auto simp: collect3_counters range_order_ok_def hA_neq_hB)
  from commonHash_sorted_groups [OF a1 a2 a3 a4] show ?thesis
    by (simp add: Let_def collect3_result)
qed

section \<open>Properties of the garbage collection of the FBFT log\<close>

lemma cleanup_log:
  "catchup_cleanup t c = (e, c') \<Longrightarrow>
     e = None \<and> c_blockNum c' = c_blockNum c
     \<and> log_messages (c_FBFTLog c') =
         filter (\<lambda>m. \<not> fm_BlockNum m < c_blockNum c - 1) (log_messages (c_FBFTLog c))
     \<and> log_blocks (c_FBFTLog c') =
         filter (\<lambda>b. \<not> NumberU64 b < c_blockNum c - 1) (log_blocks (c_FBFTLog c))"
  by (auto simp: catchup_cleanup_def Let_def DeleteMessagesLessThan_def DeleteBlocksLessThan_def
      split: if_splits)

lemma word_pred_le_int:
  fixes n x :: uint64
  shows "\<not> x < n - 1 \<Longrightarrow> int (unat n) - 1 \<le> int (unat x)"
proof (cases "n = 0")
  case True
  then have "unat n = 0" by simp
  then show ?thesis using of_nat_0_le_iff [of "unat x"] by linarith
next
  case False
  assume a: "\<not> x < n - 1"
  from False have "unat (n - 1) = unat n - 1"
    by (simp add: unat_minus_one)
  moreover from a have "unat (n - 1) \<le> unat x"
    by (simp add: word_le_nat_alt not_less)
  ultimately show ?thesis by linarith
qed

lemma same_content_map:
  "map (\<lambda>b. (blk_Header b, blk_Body b))
     (map (\<lambda>b. if b = blk then blk\<lparr>blk_CommitSig := s\<rparr> else b) bs)
   = map (\<lambda>b. (blk_Header b, blk_Body b)) bs"
  by (induction bs) auto

lemma tryCatchup_pre_cleanup:
  assumes "tryCatchup env c = (None, c')"
  shows "\<exists>t c0. catchup_cleanup t c0 = (None, c')
      \<and> log_messages (c_FBFTLog c0) = log_messages (c_FBFTLog c)
      \<and> map (\<lambda>b. (blk_Header b, blk_Body b)) (log_blocks (c_FBFTLog c0))
          = map (\<lambda>b. (blk_Header b, blk_Body b)) (log_blocks (c_FBFTLog c))"
proof (cases "GetMessagesByTypeSeq (c_FBFTLog c) COMMITTED (c_blockNum c)")
  case Nil
  with assms have "catchup_cleanup (c_blockNum c) c = (None, c')"
    by (simp add: tryCatchup_def Let_def)
  then show ?thesis by blast
next
  case (Cons committedMsg rest)
  note msgs = Cons
  show ?thesis
  proof (cases rest)
    case (Cons m2 ms)
    with msgs assms show ?thesis by (simp add: tryCatchup_def Let_def)
  next
    case Nil
    with msgs have one: "GetMessagesByTypeSeq (c_FBFTLog c) COMMITTED (c_blockNum c) = [committedMsg]"
      by simp
    show ?thesis
    proof (cases "GetBlockByHash (c_FBFTLog c) (fm_BlockHash committedMsg)")
      case None
      with one assms show ?thesis by (simp add: tryCatchup_def Let_def)
    next
      case (Some block)
      note blk = Some
      show ?thesis
      proof (cases "ValidateBody env block = None
                    \<and> ParentHash (blk_Header block) = hdr_Hash (ChainReader_CurrentHeader env)")
        case False
        with one blk assms show ?thesis
          by (auto simp: tryCatchup_def Let_def split: option.splits if_splits)
      next
        case True
        show ?thesis
        proof (cases "FindMessageByMaxViewID
                        (GetMessagesByTypeSeqHash (c_FBFTLog c) PREPARED
                           (fm_BlockNum committedMsg) (fm_BlockHash committedMsg))")
          case None
          with one blk True assms have "catchup_cleanup (c_blockNum c) c = (None, c')"
            by (simp add: tryCatchup_def Let_def)
          then show ?thesis by blast
        next
          case (Some msg)
          define block' where "block' = block\<lparr>blk_CommitSig := fm_Payload committedMsg\<rparr>"
          define c1 where "c1 = c\<lparr>c_blockHash := replicate 32 0,
                                         c_blockNum := c_blockNum c + 1,
                                         c_viewID := fm_ViewID committedMsg + 1,
                                         c_LeaderPubKey := fm_SenderPubkey committedMsg,
                                         c_FBFTLog := (c_FBFTLog c)\<lparr>log_blocks :=
                                            map (\<lambda>b. if b = block then block' else b)
                                              (log_blocks (c_FBFTLog c))\<rparr>\<rparr>"
          from one blk True Some assms
          have "catchup_cleanup (c_blockNum c) (ResetState c1) = (None, c')"
            unfolding c1_def block'_def
            by (auto simp: tryCatchup_def Let_def split: option.splits)
          moreover have "log_messages (c_FBFTLog (ResetState c1)) = log_messages (c_FBFTLog c)"
            by (simp add: ResetState_def c1_def)
          moreover have "map (\<lambda>b. (blk_Header b, blk_Body b)) (log_blocks (c_FBFTLog (ResetState c1)))
                = map (\<lambda>b. (blk_Header b, blk_Body b)) (log_blocks (c_FBFTLog c))"
            by (simp add: ResetState_def c1_def block'_def same_content_map)
          ultimately show ?thesis by blast
        qed
      qed
    qed
  qed
qed

lemma tryCatchup_log_bounds:
  assumes "tryCatchup env c = (None, c')"
  shows "(\<forall>m \<in> set (log_messages (c_FBFTLog c')).
            int (unat (c_blockNum c')) - 1 \<le> int (unat (fm_BlockNum m)))
       \<and> (\<forall>b \<in> set (log_blocks (c_FBFTLog c')).
            int (unat (c_blockNum c')) - 1 \<le> int (unat (NumberU64 b)))
       \<and> (c_blockNum c' \<noteq> 0 \<longrightarrow>
            (\<forall>m \<in> set (log_messages (c_FBFTLog c)).
               int (unat (c_blockNum c')) - 1 \<le> int (unat (fm_BlockNum m)) \<longrightarrow>
               m \<in> set (log_messages (c_FBFTLog c')))
          \<and> (\<forall>b \<in> set (log_blocks (c_FBFTLog c)).
               int (unat (c_blockNum c')) - 1 \<le> int (unat (NumberU64 b)) \<longrightarrow>
               block_content b \<in> block_content ` set (log_blocks (c_FBFTLog c'))))"
proof -
  from tryCatchup_pre_cleanup [OF assms] obtain t c0 where
    cl: "catchup_cleanup t c0 = (None, c')"
    and ms: "log_messages (c_FBFTLog c0) = log_messages (c_FBFTLog c)"
    and bs: "map (\<lambda>b. (blk_Header b, blk_Body b)) (log_blocks (c_FBFTLog c0))
          = map (\<lambda>b. (blk_Header b, blk_Body b)) (log_blocks (c_FBFTLog c))"
    by blast
  from cleanup_log [OF cl] have n: "c_blockNum c' = c_blockNum c0"
    and lm: "log_messages (c_FBFTLog c') =
         filter (\<lambda>m. \<not> fm_BlockNum m < c_blockNum c0 - 1) (log_messages (c_FBFTLog c0))"
    and lb: "log_blocks (c_FBFTLog c') =
         filter (\<lambda>b. \<not> NumberU64 b < c_blockNum c0 - 1) (log_blocks (c_FBFTLog c0))"
    by simp_all
  have ge: "\<not> x < c_blockNum c0 - 1" if "c_blockNum c0 \<noteq> 0"
    and "int (unat (c_blockNum c0)) - 1 \<le> int (unat x)" for x :: uint64
  proof -
    from that(1) have "unat (c_blockNum c0 - 1) = unat (c_blockNum c0) - 1"
      by (simp add: unat_minus_one)
    with that(2) have "unat (c_blockNum c0 - 1) \<le> unat x" by linarith
    then show ?thesis by (simp add: word_le_nat_alt not_less)
  qed
  show ?thesis
  proof (intro conjI impI ballI)
    fix m assume "m \<in> set (log_messages (c_FBFTLog c'))"
    then have "\<not> fm_BlockNum m < c_blockNum c0 - 1" by (simp add: lm)
    then show "int (unat (c_blockNum c')) - 1 \<le> int (unat (fm_BlockNum m))"
      unfolding n by (rule word_pred_le_int)
  next
    fix b assume "b \<in> set (log_blocks (c_FBFTLog c'))"
    then have "\<not> NumberU64 b < c_blockNum c0 - 1" by (simp add: lb)
    then show "int (unat (c_blockNum c')) - 1 \<le> int (unat (NumberU64 b))"
      unfolding n by (rule word_pred_le_int)
  next
    fix m assume nz: "c_blockNum c' \<noteq> 0" and "m \<in> set (log_messages (c_FBFTLog c))"
      and "int (unat (c_blockNum c')) - 1 \<le> int (unat (fm_BlockNum m))"
    then show "m \<in> set (log_messages (c_FBFTLog c'))"
      using ge [of "fm_BlockNum m"] by (simp add: lm ms n)
  next
    fix b assume nz: "c_blockNum c' \<noteq> 0" and bin: "b \<in> set (log_blocks (c_FBFTLog c))"
      and le: "int (unat (c_blockNum c')) - 1 \<le> int (unat (NumberU64 b))"
    have "(\<lambda>b. (blk_Header b, blk_Body b)) = block_content"
      by (simp add: block_content_def fun_eq_iff)
    with bs have "map block_content (log_blocks (c_FBFTLog c0))
                    = map block_content (log_blocks (c_FBFTLog c))" by simp
    then have "block_content ` set (log_blocks (c_FBFTLog c0))
                 = block_content ` set (log_blocks (c_FBFTLog c))"
      by (metis set_map)
    with bin have "block_content b \<in> block_content ` set (log_blocks (c_FBFTLog c0))"
      by blast
    then obtain b0 where b0: "b0 \<in> set (log_blocks (c_FBFTLog c0))"
      and eq: "block_content b0 = block_content b"
      by auto
    from eq have "NumberU64 b0 = NumberU64 b"
      by (simp add: block_content_def NumberU64_def)
    with ge [of "NumberU64 b"] nz le have "\<not> NumberU64 b0 < c_blockNum c0 - 1"
      by (simp add: n)
    with b0 have "b0 \<in> set (log_blocks (c_FBFTLog c'))" by (simp add: lb)
    with eq show "block_content b \<in> block_content ` set (log_blocks (c_FBFTLog c'))"
      by (metis imageI)
  qed
qed

lemma tryCatchup_blockNum:
  assumes "tryCatchup env c = (None, c')"
  shows "c_blockNum c' = c_blockNum c
       \<or> (c_blockNum c' = c_blockNum c + 1
          \<and> (\<exists>committedMsg.
                GetMessagesByTypeSeq (c_FBFTLog c) COMMITTED (c_blockNum c) = [committedMsg]))"
  using assms
  by (auto simp: tryCatchup_def catchup_cleanup_def ResetState_def Let_def
      split: list.splits option.splits if_splits)

lemma tryCatchup_cons5:
  "tryCatchup envT cons5 =
     (None, cons5\<lparr>c_blockNum := 6, c_viewID := 1, c_blockHash := replicate 32 0,
                  c_LeaderPubKey := k1, c_phase := FBFTAnnounce,
                  c_FBFTLog := \<lparr>log_blocks = [(blk_at 5)\<lparr>blk_CommitSig := [1]\<rparr>],
                                log_messages = [fbft_msg PREPARED 5, fbft_msg COMMITTED 5]\<rparr>\<rparr>)"
  by (simp add: tryCatchup_def cons5_def envT_def leader_with_def GetMessagesByTypeSeq_def
      GetMessagesByTypeSeqHash_def GetBlockByHash_def fbft_msg_def blk_at_def Let_def
      catchup_cleanup_def ResetState_def DeleteBlocksLessThan_def DeleteMessagesLessThan_def
      NumberU64_def Uint64_def)

text \<open>
  C8, as stated, fails. The consensus is at block 5 and the run commits block 5, so 5 is the
  committed block number and the consensus is left at 6. The log held an announce message
  for block 4, which is the committed block number less one; after the run it is gone.
\<close>

theorem tryCatchup_committed_minus_one_counterexample:
  "fst (tryCatchup envT cons5) = None
   \<and> c_blockNum cons5 = 5
   \<and> GetMessagesByTypeSeq (c_FBFTLog cons5) COMMITTED 5 = [fbft_msg COMMITTED 5]
   \<and> c_blockNum (snd (tryCatchup envT cons5)) = 6
   \<and> fm_BlockNum (fbft_msg ANNOUNCE 4) = 4
   \<and> fbft_msg ANNOUNCE 4 \<in> set (log_messages (c_FBFTLog cons5))
   \<and> fbft_msg ANNOUNCE 4 \<notin> set (log_messages (c_FBFTLog (snd (tryCatchup envT cons5))))"
  unfolding tryCatchup_cons5
  by (simp add: cons5_def leader_with_def fbft_msg_def GetMessagesByTypeSeq_def)

text \<open>
  C8, amended. A run of \<open>tryCatchup\<close> that returns without error either commits nothing
  and leaves the block number of the consensus as it was, or commits the block whose number
  the consensus was at and leaves the consensus at that number plus one. With \<open>now\<close> the
  block number that the run leaves, which is the number of the next block, the FBFT log
  holds no message and no block with a block number below \<open>now - 1\<close>: when block \<open>n\<close>
  has been committed the bound is \<open>n\<close> itself, so the entries at \<open>n - 1\<close> are
  garbage-collected too. For \<open>now > 0\<close> the entries that the log held at the start with a
  block number of \<open>now - 1\<close> or more are still there (a block possibly with the commit
  signature that the run has filled in).
\<close>

theorem tryCatchup_garbage_collects:
  assumes "tryCatchup env c = (None, c')"
  shows "(c_blockNum c' = c_blockNum c
          \<or> (c_blockNum c' = c_blockNum c + 1
             \<and> (\<exists>committedMsg.
                   GetMessagesByTypeSeq (c_FBFTLog c) COMMITTED (c_blockNum c) = [committedMsg])))
       \<and> (\<forall>m \<in> set (log_messages (c_FBFTLog c')).
            int (unat (c_blockNum c')) - 1 \<le> int (unat (fm_BlockNum m)))
       \<and> (\<forall>b \<in> set (log_blocks (c_FBFTLog c')).
            int (unat (c_blockNum c')) - 1 \<le> int (unat (NumberU64 b)))
       \<and> (c_blockNum c' \<noteq> 0 \<longrightarrow>
            (\<forall>m \<in> set (log_messages (c_FBFTLog c)).
               int (unat (c_blockNum c')) - 1 \<le> int (unat (fm_BlockNum m)) \<longrightarrow>
               m \<in> set (log_messages (c_FBFTLog c')))
          \<and> (\<forall>b \<in> set (log_blocks (c_FBFTLog c)).
               int (unat (c_blockNum c')) - 1 \<le> int (unat (NumberU64 b)) \<longrightarrow>
               block_content b \<in> block_content ` set (log_blocks (c_FBFTLog c'))))"
  using tryCatchup_log_bounds [OF assms] tryCatchup_blockNum [OF assms] by blast

lemma keys_distinct:
  "k1 \<noteq> k2" "k1 \<noteq> k3" "k1 \<noteq> k4" "k2 \<noteq> k3" "k2 \<noteq> k4" "k3 \<noteq> k4"
  "k2 \<noteq> k1" "k3 \<noteq> k1" "k4 \<noteq> k1" "k3 \<noteq> k2" "k4 \<noteq> k2" "k4 \<noteq> k3"
  by (simp_all add: k1_def k2_def k3_def k4_def)

theorem tryCatchup_garbage_collects_witness:
  "fst (tryCatchup envT cons5) = None
   \<and> c_blockNum (snd (tryCatchup envT cons5)) = 6
   \<and> log_messages (c_FBFTLog (snd (tryCatchup envT cons5)))
       = [fbft_msg PREPARED 5, fbft_msg COMMITTED 5]
   \<and> map NumberU64 (log_blocks (c_FBFTLog (snd (tryCatchup envT cons5)))) = [5]
   \<and> 5 \<le> int (unat (fm_BlockNum (fbft_msg COMMITTED 5)))"
proof -
  have r: "tryCatchup envT cons5 = (None, snd (tryCatchup envT cons5))"
    by (simp add: tryCatchup_cons5)
  have n: "c_blockNum (snd (tryCatchup envT cons5)) = 6"
    by (simp add: tryCatchup_cons5)
  from tryCatchup_garbage_collects [OF r] show ?thesis
    unfolding n by (simp add: tryCatchup_cons5 NumberU64_def Uint64_def blk_at_def)
qed

section \<open>Properties of the leader on a commit message\<close>

lemma onCommit_three_of_four:
  "onCommit envL (leader_with [k1, k2]) commit_wire =
     (None, (leader_with [k1, k2])\<lparr>c_Decider := (c_Decider (leader_with [k1, k2]))\<lparr>sd_commit := [k1, k2, k3]\<rparr>,
        c_commitBitmap := [k3, k1, k2]\<rparr>)"
  by (simp add: keys_distinct onCommit_def envL_def leader_with_def commit_from_k3_def
      isRightBlockNumAndViewID_def spec_SubmitVote_def spec_IsAllSigsCollected_def sd_voters_def
      Let_def)

text \<open>
  C2, as stated, fails. The committee has four members, of which \<open>k1\<close> and \<open>k2\<close> have
  committed. The leader accepts the commit vote of \<open>k3\<close>: three of four votes are more than
  two thirds, not every member has signed, and \<open>onCommit\<close> schedules nothing.
\<close>

theorem onCommit_quorum_counterexample:
  "fst (onCommit envL (leader_with [k1, k2]) commit_wire) = None
   \<and> sd_commit (c_Decider (snd (onCommit envL (leader_with [k1, k2]) commit_wire))) = [k1, k2, k3]
   \<and> IsQuorumAchieved envL (c_Decider (snd (onCommit envL (leader_with [k1, k2]) commit_wire))) Commit
   \<and> \<not> IsAllSigsCollected envL (c_Decider (snd (onCommit envL (leader_with [k1, k2]) commit_wire)))
   \<and> c_timers (snd (onCommit envL (leader_with [k1, k2]) commit_wire)) = []"
  unfolding onCommit_three_of_four fst_conv snd_conv
  by (simp add: keys_distinct envL_def leader_with_def spec_IsQuorumAchieved_def
      spec_IsAllSigsCollected_def sd_voters_def)

text \<open>
  C2, amended. When the leader's \<open>onCommit\<close> accepts a commit message (the node is the
  leader, the message parses, its block number and view id are those of the consensus, it
  is no double sign, its signature deserializes and verifies over the commit payload, the
  decider takes the vote and the bitmap takes the key), it returns no error, records the
  vote and the bit, and schedules one finalization, at \<open>NextBlockDue\<close>, exactly when the
  decider says that all signatures are collected. Otherwise it schedules nothing, whether
  or not the commit quorum is achieved.
\<close>

theorem onCommit_schedules_on_all_sigs:
  assumes "IsLeader env c"
    and "ParseFBFTMessage env msg = Inr recvMsg"
    and "isRightBlockNumAndViewID c recvMsg"
    and "\<not> checkDoubleSign env c recvMsg"
    and "Deserialize env (fm_Payload recvMsg) = Inr sign"
    and "VerifyHash env sign (fm_SenderPubkey recvMsg)
           (ConstructCommitPayload (ChainReader env) (Some (uint (c_epoch c)))
              (fm_BlockHash recvMsg) (fm_BlockNum recvMsg) (c_viewID c))"
    and "SubmitVote env (c_Decider c) Commit (fm_SenderPubkey recvMsg) sign
           (fm_BlockHash recvMsg) (fm_BlockNum recvMsg) (fm_ViewID recvMsg) = Inr d'"
    and "SetKey env (c_commitBitmap c) (fm_SenderPubkey recvMsg) True = Inr bm'"
  shows "onCommit env c msg =
           (None, c\<lparr>c_Decider := d', c_commitBitmap := bm',
                    c_timers := c_timers c @
                      (if IsAllSigsCollected env d'
                       then [\<lparr>fire_at = c_NextBlockDue c, sends_viewID = c_viewID c\<rparr>]
                       else [])\<rparr>)"
  using assms by (simp add: onCommit_def Let_def)

theorem onCommit_schedules_on_all_sigs_witness:
  "onCommit envL (leader_with [k1, k2, k4]) commit_wire =
     (None, (leader_with [k1, k2, k4])
        \<lparr>c_Decider := (c_Decider (leader_with [k1, k2, k4]))\<lparr>sd_commit := [k1, k2, k4, k3]\<rparr>,
         c_commitBitmap := [k3, k1, k2, k4],
         c_timers := [\<lparr>fire_at = 8, sends_viewID = 0\<rparr>]\<rparr>)"
proof -
  let ?c = "leader_with [k1, k2, k4]"
  have a1: "IsLeader envL ?c" by (simp add: envL_def)
  have a2: "ParseFBFTMessage envL commit_wire = Inr commit_from_k3" by (simp add: envL_def)
  have a3: "isRightBlockNumAndViewID ?c commit_from_k3"
    by (simp add: isRightBlockNumAndViewID_def leader_with_def commit_from_k3_def)
  have a4: "\<not> checkDoubleSign envL ?c commit_from_k3" by (simp add: envL_def)
  have a5: "Deserialize envL (fm_Payload commit_from_k3) = Inr [9]"
    by (simp add: envL_def commit_from_k3_def)
  have a6: "VerifyHash envL [9] (fm_SenderPubkey commit_from_k3)
           (ConstructCommitPayload (ChainReader envL) (Some (uint (c_epoch ?c)))
              (fm_BlockHash commit_from_k3) (fm_BlockNum commit_from_k3) (c_viewID ?c))"
    by (simp add: envL_def)
  have a7: "SubmitVote envL (c_Decider ?c) Commit (fm_SenderPubkey commit_from_k3) [9]
           (fm_BlockHash commit_from_k3) (fm_BlockNum commit_from_k3) (fm_ViewID commit_from_k3)
           = Inr ((c_Decider ?c)\<lparr>sd_commit := [k1, k2, k4, k3]\<rparr>)"
    by (simp add: keys_distinct envL_def leader_with_def commit_from_k3_def spec_SubmitVote_def sd_voters_def)
  have a8: "SetKey envL (c_commitBitmap ?c) (fm_SenderPubkey commit_from_k3) True
              = Inr [k3, k1, k2, k4]"
    by (simp add: envL_def leader_with_def commit_from_k3_def)
  have all: "IsAllSigsCollected envL ((c_Decider ?c)\<lparr>sd_commit := [k1, k2, k4, k3]\<rparr>)"
    by (simp add: envL_def leader_with_def spec_IsAllSigsCollected_def)
  from onCommit_schedules_on_all_sigs [OF a1 a2 a3 a4 a5 a6 a7 a8] all
  show ?thesis by (simp add: leader_with_def)
qed


section \<open>Properties of the slash record check\<close>

text \<open>
  C3. \<open>Verify\<close> returns no error for a record whose signed header and double-signed
  header are the same header, so that the two headers do not differ in block hash.
\<close>

theorem Verify_accepts_same_header:
  "Verify same_header_record = None
   \<and> Signed_Header same_header_record = DoubleSigned_Header same_header_record"
  by (simp add: Verify_def same_header_record_def)

section \<open>Properties of the choice of peers to probe\<close>

lemma holds_nil: "holds nil_slice []"
  by (simp add: holds_def nil_slice_def)

lemma holds_append1:
  assumes "holds s xs" and "g (sl_cap s) > sl_cap s"
  shows "holds (append1 g s x) (xs @ [x])"
proof -
  from assms(1) obtain k where len: "sl_len s = length xs"
    and arr: "sl_array s = map Some xs @ replicate k None"
    by (auto simp: holds_def)
  show ?thesis
  proof (cases "sl_len s < sl_cap s")
    case True
    with len arr have "k > 0" by (simp add: sl_cap_def)
    then obtain k' where k: "k = Suc k'" by (cases k) auto
    have "(sl_array s)[sl_len s := Some x] = map Some (xs @ [x]) @ replicate k' None"
      by (simp add: arr len k list_update_append)
    with True len show ?thesis
      by (auto simp: holds_def append1_def)
  next
    case False
    with len arr have "k = 0" by (simp add: sl_cap_def)
    with arr len have "sl_elems s = map Some xs"
      by (simp add: sl_elems_def)
    with False len show ?thesis
      by (auto simp: holds_def append1_def)
  qed
qed

lemma filter_peers_holds:
  assumes "\<And>c. growcap env c > c"
  shows "holds filtered xs \<Longrightarrow> filter_peers env conns filtered = Inr s \<Longrightarrow>
         holds s (xs @ filter (eligible env) conns)"
proof (induction conns arbitrary: filtered xs)
  case Nil
  then show ?case by simp
next
  case (Cons neighbor conns)
  show ?case
  proof (cases "eligible env neighbor")
    case True
    then obtain peerID protocols where m: "MarshalBinary env neighbor = Inr peerID"
      and l: "\<not> Lookup_exists env peerID"
      and sp: "SupportsProtocols env neighbor = Inr protocols"
      and pr: "p2p_Protocol env \<in> set protocols"
      by (auto simp: eligible_def split: sum.splits)
    with Cons.prems(2)
    have r: "filter_peers env conns (append1 (growcap env) filtered neighbor) = Inr s"
      by simp
    have "holds (append1 (growcap env) filtered neighbor) (xs @ [neighbor])"
      using Cons.prems(1) assms by (rule holds_append1)
    from Cons.IH [OF this r] True show ?thesis by simp
  next
    case False
    with Cons.prems(2) have "filter_peers env conns filtered = Inr s"
      by (auto simp: eligible_def split: sum.splits if_splits)
    from Cons.IH [OF Cons.prems(1) this] False show ?thesis by simp
  qed
qed

lemma harmonyProtocolPeers_holds:
  assumes "\<And>c. growcap env c > c" and "harmonyProtocolPeers env conns = Inr s"
  shows "holds s (filter (eligible env) conns)"
proof -
  from assms(2) have "filter_peers env conns nil_slice = Inr s"
    by (simp add: harmonyProtocolPeers_def split: if_splits)
  from filter_peers_holds [OF assms(1) holds_nil this] show ?thesis by simp
qed

lemma map_filter_id_Some: "List.map_filter id (map Some xs) = xs"
  by (induction xs) (simp_all add: List.map_filter_simps)

lemma slice_enough:
  assumes "holds s xs" and "7 \<le> length xs"
  shows "\<exists>s'. slice_upto s 7 = Inr s' \<and> sl_elems s' = map Some (take 7 xs)"
proof -
  from assms(1) obtain k where len: "sl_len s = length xs"
    and arr: "sl_array s = map Some xs @ replicate k None"
    by (auto simp: holds_def)
  from assms(2) arr have "\<not> 7 > sl_cap s" by (simp add: sl_cap_def)
  moreover from assms(2) have "take 7 (sl_array s) = map Some (take 7 xs)"
    by (simp add: arr take_map)
  ultimately show ?thesis
    by (simp add: slice_upto_def sl_elems_def)
qed

lemma slice_short:
  assumes "holds s xs" and "length xs < 7" and "\<not> sl_cap s < 7" and "slice_upto s 7 = Inr s'"
  shows "None \<in> set (sl_elems s')"
proof -
  from assms(1) obtain k where len: "sl_len s = length xs"
    and arr: "sl_array s = map Some xs @ replicate k None"
    by (auto simp: holds_def)
  from assms(3) arr have k: "length xs + k \<ge> 7" by (simp add: sl_cap_def)
  from assms(4) have s': "sl_elems s' = take 7 (sl_array s)"
    by (auto simp: slice_upto_def sl_elems_def split: if_splits)
  have "take 7 (sl_array s) = map Some xs @ replicate (7 - length xs) None"
    using assms(2) k by (simp add: arr min_def)
  with assms(2) s' show ?thesis by simp
qed

lemma gc_grows: "gc_growcap c > c"
  by (simp add: gc_growcap_def)

lemma feed_to_end_no_nil:
  assumes "None \<notin> set w"
  shows "feed_to_end env w sched \<noteq> Panicked p"
    and "feed_to_end env w sched = Returned r \<Longrightarrow>
           probe_all env (List.map_filter id w) fmempty = Inr r"
  using assms by (auto simp: feed_to_end_def split: option.splits sum.splits)

lemma protocolPeerHeights_no_nil:
  assumes "None \<notin> set (sl_elems conns)"
  shows "protocolPeerHeights env conns sched \<noteq> Panicked p"
    and "protocolPeerHeights env conns sched = Returned r \<Longrightarrow>
           probe_all env (List.map_filter id (sl_elems conns)) fmempty = Inr r"
  using feed_to_end_no_nil [OF assms, of env sched]
  by (auto simp: protocolPeerHeights_def Let_def split: option.splits if_splits)

lemma feed_to_end_nil:
  "None \<in> set w \<Longrightarrow> feed_to_end env w sched = Panicked NilPointerDereference"
  by (simp add: feed_to_end_def)

lemma protocolPeerHeights_nil:
  assumes "None \<in> set (sl_elems conns)"
  shows "protocolPeerHeights env conns sched = Panicked NilPointerDereference
         \<or> (\<exists>err. protocolPeerHeights env conns sched = Failed err)"
    and "feeder_stop sched = None \<Longrightarrow>
           protocolPeerHeights env conns sched = Panicked NilPointerDereference"
    and "outside_cancel sched = None \<Longrightarrow>
         \<forall>p. Some p \<in> set (sl_elems conns) \<longrightarrow> (\<exists>m. height_probe env p = Inr m) \<Longrightarrow>
           protocolPeerHeights env conns sched = Panicked NilPointerDereference"
proof -
  note nil = feed_to_end_nil [OF assms, of env sched]
  show "protocolPeerHeights env conns sched = Panicked NilPointerDereference
         \<or> (\<exists>err. protocolPeerHeights env conns sched = Failed err)"
    using nil by (auto simp: protocolPeerHeights_def Let_def split: option.splits)
  show "feeder_stop sched = None \<Longrightarrow>
           protocolPeerHeights env conns sched = Panicked NilPointerDereference"
    using nil by (simp add: protocolPeerHeights_def Let_def)
  assume oc: "outside_cancel sched = None"
    and ok: "\<forall>p. Some p \<in> set (sl_elems conns) \<longrightarrow> (\<exists>m. height_probe env p = Inr m)"
  have "probe_error env (sl_elems conns) i = None" for i
  proof (cases "i < length (sl_elems conns)")
    case False
    then show ?thesis by (simp add: probe_error_def)
  next
    case True
    then have "sl_elems conns ! i \<in> set (sl_elems conns)" by simp
    show ?thesis
    proof (cases "sl_elems conns ! i")
      case None
      with True show ?thesis by (simp add: probe_error_def)
    next
      case (Some q)
      with \<open>sl_elems conns ! i \<in> set (sl_elems conns)\<close> have "Some q \<in> set (sl_elems conns)"
        by simp
      with ok obtain m where "height_probe env q = Inr m" by blast
      with True Some show ?thesis by (simp add: probe_error_def)
    qed
  qed
  then have "chosen_error env (sl_elems conns) sched j = None" for j
    by (simp add: chosen_error_def split: option.splits)
  with nil oc show "protocolPeerHeights env conns sched = Panicked NilPointerDereference"
    by (simp add: protocolPeerHeights_def Let_def split: option.splits)
qed

lemma five_peers:
  "harmonyProtocolPeers (sync_env 5) (take 5 all_peers) =
     Inr \<lparr>sl_array = [Some ''p1'', Some ''p2'', Some ''p3'', Some ''p4'', Some ''p5'',
                      None, None, None], sl_len = 5\<rparr>"
  by (simp add: harmonyProtocolPeers_def sync_env_def all_peers_def nil_slice_def append1_def
      sl_cap_def sl_elems_def gc_growcap_def) (simp add: eval_nat_numeral)

lemma five_peers_reset:
  "harmonyProtocolPeers sync_env_reset (take 5 all_peers) =
     Inr \<lparr>sl_array = [Some ''p1'', Some ''p2'', Some ''p3'', Some ''p4'', Some ''p5'',
                      None, None, None], sl_len = 5\<rparr>"
  by (simp add: harmonyProtocolPeers_def sync_env_reset_def sync_env_def all_peers_def
      nil_slice_def append1_def sl_cap_def sl_elems_def gc_growcap_def)
     (simp add: eval_nat_numeral)

lemma seven_peers:
  "harmonyProtocolPeers (sync_env 7) (take 7 all_peers) =
     Inr \<lparr>sl_array = [Some ''p1'', Some ''p2'', Some ''p3'', Some ''p4'', Some ''p5'',
                      Some ''p6'', Some ''p7'', None], sl_len = 7\<rparr>"
  by (simp add: harmonyProtocolPeers_def sync_env_def all_peers_def nil_slice_def append1_def
      sl_cap_def sl_elems_def gc_growcap_def) (simp add: eval_nat_numeral)

lemma three_peers:
  "harmonyProtocolPeers (sync_env 3) (take 3 all_peers) =
     Inr \<lparr>sl_array = [Some ''p1'', Some ''p2'', Some ''p3'', None], sl_len = 3\<rparr>"
  by (simp add: harmonyProtocolPeers_def sync_env_def all_peers_def nil_slice_def append1_def
      sl_cap_def sl_elems_def gc_growcap_def)

lemma reset_stops:
  "syncFromHMYPeersIfNeeded sync_env_reset no_fetch stop_after_failure = Failed ''stream reset''"
proof -
  have "Swarm_Peers sync_env_reset = Inr (take 5 all_peers)"
    by (simp add: sync_env_reset_def sync_env_def)
  moreover have "height_probe sync_env_reset ''p1'' = Inl ''stream reset''"
    by (simp add: sync_env_reset_def)
  ultimately show ?thesis
    by (simp add: syncFromHMYPeersIfNeeded_def five_peers_reset slice_upto_def sl_cap_def
        protocolPeerHeights_def sl_elems_def stop_after_failure_def chosen_error_def
        probe_error_def Let_def)
qed

text \<open>
  C9, as stated, fails. With five eligible peers the filtered slice has length 5 and
  capacity 8, so \<^verbatim>\<open>hmyConns[:7]\<close> is within bounds: it gives a slice of seven entries of
  which the last two are nil. When all probes succeed the function panics later, on the nil
  entry. When the probe of the first peer fails and the feeder sees the cancelled context
  before it reaches the nil entries, the function returns the error of the probe and does
  not panic.
\<close>

theorem syncFromHMYPeersIfNeeded_five_peers_counterexample:
  "harmonyProtocolPeers (sync_env 5) (take 5 all_peers) =
     Inr \<lparr>sl_array = [Some ''p1'', Some ''p2'', Some ''p3'', Some ''p4'', Some ''p5'',
                      None, None, None], sl_len = 5\<rparr>
   \<and> slice_upto \<lparr>sl_array = [Some ''p1'', Some ''p2'', Some ''p3'', Some ''p4'', Some ''p5'',
                      None, None, None], sl_len = 5\<rparr> 7
      = Inr \<lparr>sl_array = [Some ''p1'', Some ''p2'', Some ''p3'', Some ''p4'', Some ''p5'',
                      None, None, None], sl_len = 7\<rparr>
   \<and> syncFromHMYPeersIfNeeded (sync_env 5) no_fetch calm = Panicked NilPointerDereference
   \<and> syncFromHMYPeersIfNeeded sync_env_reset no_fetch stop_after_failure
       = Failed ''stream reset''"
proof -
  have "Swarm_Peers (sync_env 5) = Inr (take 5 all_peers)" by (simp add: sync_env_def)
  then have "syncFromHMYPeersIfNeeded (sync_env 5) no_fetch calm
               = Panicked NilPointerDereference"
    by (simp add: syncFromHMYPeersIfNeeded_def five_peers slice_upto_def sl_cap_def
        protocolPeerHeights_def feed_to_end_def sl_elems_def calm_def Let_def)
  then show ?thesis
    by (simp add: five_peers slice_upto_def sl_cap_def reset_stops)
qed

text \<open>
  C9, amended. \<open>syncFromHMYPeersIfNeeded\<close> takes \<^verbatim>\<open>hmyConns[:7]\<close> without a check of
  the length, and the bound of the slice expression is the capacity. When the peers are
  listed and filtered without error, the filtered slice holds the eligible peers in their
  order. With at least seven eligible peers the slice expression succeeds and gives the
  first seven; no schedule makes the probing panic, and answers that come back are those of
  these seven peers. With fewer than seven eligible peers the round never goes on to the
  answers. When the capacity is below 7 the slice expression panics. Otherwise
  \<^verbatim>\<open>hmyConns[:7]\<close> takes nil entries from beyond the length, and the function either
  panics on the call of \<^verbatim>\<open>ID()\<close> on a nil entry or returns an error, which happens
  only when the feeder sees a done context before it reaches the nil entry; it panics
  whenever the feeder sees no done context, and whenever all probes succeed and the
  caller's context is not cancelled. This holds for every schedule and for every growth of
  capacities that makes room for the appended element.
\<close>

theorem syncFromHMYPeersIfNeeded_first_seven:
  assumes grow: "\<And>c. growcap env c > c"
    and peers: "Swarm_Peers env = Inr conns"
    and hmy: "harmonyProtocolPeers env conns = Inr hmyConns"
  shows "sl_elems hmyConns = map Some (filter (eligible env) conns)
       \<and> (7 \<le> sl_len hmyConns \<longrightarrow>
            (\<exists>firstConns.
               slice_upto hmyConns 7 = Inr firstConns
               \<and> sl_elems firstConns = map Some (take 7 (filter (eligible env) conns))
               \<and> (\<forall>p. protocolPeerHeights env firstConns sched \<noteq> Panicked p)
               \<and> (\<forall>collect. protocolPeerHeights env firstConns sched = Returned collect \<longrightarrow>
                     probe_all env (take 7 (filter (eligible env) conns)) fmempty = Inr collect)
               \<and> syncFromHMYPeersIfNeeded env fetch sched =
                   (case protocolPeerHeights env firstConns sched of
                      Panicked p \<Rightarrow> Panicked p
                    | Failed err \<Rightarrow> Failed err
                    | Returned collect \<Rightarrow>
                        if collect = fmempty then Returned () else fetch collect)))
       \<and> (sl_len hmyConns < 7 \<longrightarrow> sl_cap hmyConns < 7 \<longrightarrow>
            syncFromHMYPeersIfNeeded env fetch sched =
              Panicked (SliceBoundsOutOfRange 7 (sl_cap hmyConns)))
       \<and> (sl_len hmyConns < 7 \<longrightarrow> \<not> sl_cap hmyConns < 7 \<longrightarrow>
            (syncFromHMYPeersIfNeeded env fetch sched = Panicked NilPointerDereference
             \<or> (\<exists>err. syncFromHMYPeersIfNeeded env fetch sched = Failed err))
            \<and> (feeder_stop sched = None \<longrightarrow>
                 syncFromHMYPeersIfNeeded env fetch sched = Panicked NilPointerDereference)
            \<and> (outside_cancel sched = None \<longrightarrow>
                 (\<forall>p \<in> set (filter (eligible env) conns). \<exists>m. height_probe env p = Inr m) \<longrightarrow>
                 syncFromHMYPeersIfNeeded env fetch sched = Panicked NilPointerDereference))"
proof -
  let ?xs = "filter (eligible env) conns"
  have h: "holds hmyConns ?xs" using grow hmy by (rule harmonyProtocolPeers_holds)
  then have len: "sl_len hmyConns = length ?xs" by (simp add: holds_def)
  from h have elems: "sl_elems hmyConns = map Some ?xs"
    by (auto simp: holds_def sl_elems_def)
  have enough: "\<exists>firstConns.
               slice_upto hmyConns 7 = Inr firstConns
               \<and> sl_elems firstConns = map Some (take 7 ?xs)
               \<and> (\<forall>p. protocolPeerHeights env firstConns sched \<noteq> Panicked p)
               \<and> (\<forall>collect. protocolPeerHeights env firstConns sched = Returned collect \<longrightarrow>
                     probe_all env (take 7 ?xs) fmempty = Inr collect)
               \<and> syncFromHMYPeersIfNeeded env fetch sched =
                   (case protocolPeerHeights env firstConns sched of
                      Panicked p \<Rightarrow> Panicked p
                    | Failed err \<Rightarrow> Failed err
                    | Returned collect \<Rightarrow>
                        if collect = fmempty then Returned () else fetch collect)"
    if "7 \<le> sl_len hmyConns"
  proof -
    from that len have "7 \<le> length ?xs" by simp
    from slice_enough [OF h this] obtain s' where s': "slice_upto hmyConns 7 = Inr s'"
      and e: "sl_elems s' = map Some (take 7 ?xs)" by blast
    have nn: "None \<notin> set (sl_elems s')" by (auto simp: e)
    have "\<forall>p. protocolPeerHeights env s' sched \<noteq> Panicked p"
      using protocolPeerHeights_no_nil(1) [OF nn] by blast
    moreover have "\<forall>collect. protocolPeerHeights env s' sched = Returned collect \<longrightarrow>
                     probe_all env (take 7 ?xs) fmempty = Inr collect"
      using protocolPeerHeights_no_nil(2) [OF nn, of env sched]
      by (simp add: e map_filter_id_Some)
    moreover have "syncFromHMYPeersIfNeeded env fetch sched =
                   (case protocolPeerHeights env s' sched of
                      Panicked p \<Rightarrow> Panicked p
                    | Failed err \<Rightarrow> Failed err
                    | Returned collect \<Rightarrow>
                        if collect = fmempty then Returned () else fetch collect)"
      by (simp add: syncFromHMYPeersIfNeeded_def peers hmy s')
    ultimately show ?thesis using s' e by blast
  qed
  have bounds: "syncFromHMYPeersIfNeeded env fetch sched =
              Panicked (SliceBoundsOutOfRange 7 (sl_cap hmyConns))"
    if "sl_cap hmyConns < 7"
    using that by (simp add: syncFromHMYPeersIfNeeded_def peers hmy slice_upto_def)
  have short: "(syncFromHMYPeersIfNeeded env fetch sched = Panicked NilPointerDereference
             \<or> (\<exists>err. syncFromHMYPeersIfNeeded env fetch sched = Failed err))
            \<and> (feeder_stop sched = None \<longrightarrow>
                 syncFromHMYPeersIfNeeded env fetch sched = Panicked NilPointerDereference)
            \<and> (outside_cancel sched = None \<longrightarrow>
                 (\<forall>p \<in> set ?xs. \<exists>m. height_probe env p = Inr m) \<longrightarrow>
                 syncFromHMYPeersIfNeeded env fetch sched = Panicked NilPointerDereference)"
    if lt: "sl_len hmyConns < 7" and cap: "\<not> sl_cap hmyConns < 7"
  proof -
    from cap obtain s' where s': "slice_upto hmyConns 7 = Inr s'"
      by (simp add: slice_upto_def)
    from lt len have l7: "length ?xs < 7" by simp
    from slice_short [OF h l7 cap s'] have nil: "None \<in> set (sl_elems s')" .
    have sub: "Some p \<in> set (sl_elems s') \<Longrightarrow> p \<in> set ?xs" for p
    proof -
      assume a: "Some p \<in> set (sl_elems s')"
      from s' have "sl_elems s' = take 7 (sl_array hmyConns)"
        by (auto simp: slice_upto_def sl_elems_def split: if_splits)
      with a have "Some p \<in> set (sl_array hmyConns)" by (auto dest: in_set_takeD)
      with h show ?thesis by (auto simp: holds_def)
    qed
    have r: "syncFromHMYPeersIfNeeded env fetch sched =
               (case protocolPeerHeights env s' sched of
                  Panicked p \<Rightarrow> Panicked p
                | Failed err \<Rightarrow> Failed err
                | Returned collect \<Rightarrow> if collect = fmempty then Returned () else fetch collect)"
      by (simp add: syncFromHMYPeersIfNeeded_def peers hmy s')
    from protocolPeerHeights_nil(1) [OF nil, of env sched]
    have c1: "syncFromHMYPeersIfNeeded env fetch sched = Panicked NilPointerDereference
             \<or> (\<exists>err. syncFromHMYPeersIfNeeded env fetch sched = Failed err)"
      unfolding r by auto
    have c2: "feeder_stop sched = None \<longrightarrow>
                 syncFromHMYPeersIfNeeded env fetch sched = Panicked NilPointerDereference"
      using protocolPeerHeights_nil(2) [OF nil, of sched env] unfolding r by auto
    have c3: "outside_cancel sched = None \<longrightarrow>
                 (\<forall>p \<in> set ?xs. \<exists>m. height_probe env p = Inr m) \<longrightarrow>
                 syncFromHMYPeersIfNeeded env fetch sched = Panicked NilPointerDereference"
    proof (intro impI)
      assume oc: "outside_cancel sched = None"
        and ok: "\<forall>p \<in> set ?xs. \<exists>m. height_probe env p = Inr m"
      from ok sub have "\<forall>p. Some p \<in> set (sl_elems s') \<longrightarrow> (\<exists>m. height_probe env p = Inr m)"
        by blast
      from protocolPeerHeights_nil(3) [OF nil oc this]
      show "syncFromHMYPeersIfNeeded env fetch sched = Panicked NilPointerDereference"
        unfolding r by simp
    qed
    from c1 c2 c3 show ?thesis by blast
  qed
  from elems enough bounds short show ?thesis by blast
qed

theorem syncFromHMYPeersIfNeeded_first_seven_witness:
  "syncFromHMYPeersIfNeeded (sync_env 7) no_fetch calm = Returned ()
   \<and> syncFromHMYPeersIfNeeded (sync_env 3) no_fetch calm = Panicked (SliceBoundsOutOfRange 7 4)
   \<and> syncFromHMYPeersIfNeeded (sync_env 5) no_fetch stop_after_failure
       = Panicked NilPointerDereference
   \<and> syncFromHMYPeersIfNeeded sync_env_reset no_fetch calm = Panicked NilPointerDereference"
proof -
  have g: "\<And>n c. growcap (sync_env n) c > c" by (simp add: sync_env_def gc_grows)
  have g': "\<And>c. growcap sync_env_reset c > c"
    by (simp add: sync_env_reset_def sync_env_def gc_grows)
  have p: "\<And>n. Swarm_Peers (sync_env n) = Inr (take n all_peers)" by (simp add: sync_env_def)
  have p': "Swarm_Peers sync_env_reset = Inr (take 5 all_peers)"
    by (simp add: sync_env_reset_def sync_env_def)
  have el: "\<And>n q. eligible (sync_env n) q" by (simp add: eligible_def sync_env_def)
  have seven: "syncFromHMYPeersIfNeeded (sync_env 7) no_fetch calm = Returned ()"
  proof -
    from syncFromHMYPeersIfNeeded_first_seven [OF g p seven_peers, where fetch = no_fetch and sched = calm]
    obtain firstConns where
      e: "sl_elems firstConns = map Some (take 7 (filter (eligible (sync_env 7)) (take 7 all_peers)))"
      and r: "syncFromHMYPeersIfNeeded (sync_env 7) no_fetch calm =
                   (case protocolPeerHeights (sync_env 7) firstConns calm of
                      Panicked p \<Rightarrow> Panicked p
                    | Failed err \<Rightarrow> Failed err
                    | Returned collect \<Rightarrow>
                        if collect = fmempty then Returned () else no_fetch collect)"
      by auto
    have "\<exists>collect. protocolPeerHeights (sync_env 7) firstConns calm = Returned collect"
      by (simp add: protocolPeerHeights_def feed_to_end_def e el all_peers_def calm_def
          chosen_error_def Let_def List.map_filter_simps sync_env_def)
    with r show ?thesis by (auto simp: no_fetch_def)
  qed
  moreover from syncFromHMYPeersIfNeeded_first_seven [OF g p three_peers, where fetch = no_fetch and sched = calm]
  have "syncFromHMYPeersIfNeeded (sync_env 3) no_fetch calm = Panicked (SliceBoundsOutOfRange 7 4)"
    by (simp add: sl_cap_def)
  moreover from syncFromHMYPeersIfNeeded_first_seven [OF g p five_peers, where fetch = no_fetch and sched = stop_after_failure]
  have "syncFromHMYPeersIfNeeded (sync_env 5) no_fetch stop_after_failure
          = Panicked NilPointerDereference"
    by (simp add: sl_cap_def stop_after_failure_def sync_env_def)
  moreover from syncFromHMYPeersIfNeeded_first_seven [OF g' p' five_peers_reset, where fetch = no_fetch and sched = calm]
  have "syncFromHMYPeersIfNeeded sync_env_reset no_fetch calm = Panicked NilPointerDereference"
    by (simp add: sl_cap_def calm_def)
  ultimately show ?thesis by simp
qed

end
